theory Spec2Isabelle
  imports Complex_Main "HOL-Library.Word"
begin

section \<open>The layout of ovgenpy's renderer (\<^verbatim>\<open>src/ovgenpy/renderer.py\<close>)\<close>

text \<open>
  The theory embeds \<^verbatim>\<open>LayoutConfig\<close>, \<^verbatim>\<open>RendererLayout\<close> and
  \<^verbatim>\<open>MatplotlibRenderer\<close>. Python integers are \<open>int\<close>, \<^verbatim>\<open>Optional[int]\<close> is
  \<open>int option\<close>, every \<^verbatim>\<open>raise\<close> and every failing \<^verbatim>\<open>assert\<close> is a value
  of \<open>error\<close>, returned as \<open>Inl\<close>; where a method has written to its object before
  it raises, the error comes with the object as the method leaves it. Private attributes
  lose their leading underscore (\<^verbatim>\<open>_calc_layout\<close> is \<open>calc_layout\<close>), and the
  fields of the three classes carry a prefix where two classes use one name.
\<close>

subsection \<open>Errors\<close>

text \<open>
  One constructor for each place where the source raises, with the exception class of the
  source in the comment. \<open>Negative_shape\<close> stands for what numpy does when it is handed a
  negative dimension: numpy is not part of the repository, and the model of a numpy call
  stops there. \<open>Shape_mismatch\<close> is the error that leaves \<^verbatim>\<open>canvas.draw()\<close> when a
  line cannot build its points.
\<close>

datatype error =
    Both_nrows_and_ncols           \<comment> \<open>ValueError: cannot manually assign both nrows and ncols\<close>
  | Nrows_is_None                  \<comment> \<open>ValueError: invalid cfg: rows_first is True and nrows is None\<close>
  | Ncols_is_None                  \<comment> \<open>ValueError: invalid cfg: rows_first is False and ncols is None\<close>
  | Invalid_orientation string     \<comment> \<open>ValueError: Invalid orientation ... not in ['h', 'v']\<close>
  | Cannot_assign_colors int int   \<comment> \<open>ValueError: cannot assign ... colors to ... plots\<close>
  | Colors_after_render_frame      \<comment> \<open>ValueError: cannot set line colors after calling render_frame()\<close>
  | Incorrect_data int int         \<comment> \<open>ValueError: incorrect data to plot: ... plots but ... datas\<close>
  | Set_layout_twice               \<comment> \<open>Exception: I don't currently expect to call set_layout() twice\<close>
  | Not_FigureCanvasAgg            \<comment> \<open>RuntimeError: cannot read data from ... != FigureCanvasAgg\<close>
  | AssertionError                 \<comment> \<open>a failing assert of get_frame\<close>
  | ZeroDivisionError              \<comment> \<open>Python's division by zero\<close>
  | IndexError                     \<comment> \<open>Python's list index out of range\<close>
  | AttributeError                 \<comment> \<open>an attribute of None\<close>
  | TypeError                      \<comment> \<open>None is indexed\<close>
  | Cannot_reshape                 \<comment> \<open>numpy's ValueError: cannot reshape array of size ... into shape ...\<close>
  | Unravel_out_of_bounds          \<comment> \<open>numpy's ValueError: index ... is out of bounds for array with size ...\<close>
  | Negative_shape                 \<comment> \<open>a numpy call with a negative dimension (outside the model)\<close>
  | Shape_mismatch                 \<comment> \<open>numpy's ValueError: shape mismatch: objects cannot be broadcast to a single shape\<close>

text \<open>The taxonomy of the specification, section 7, over the errors of the source.\<close>

datatype category =
  InvalidConfig | ArityMismatch | LifecycleViolation | BackendContractViolation | Uncategorised

fun taxonomy :: "error \<Rightarrow> category" where
  "taxonomy Both_nrows_and_ncols = InvalidConfig"
| "taxonomy Nrows_is_None = InvalidConfig"
| "taxonomy Ncols_is_None = InvalidConfig"
| "taxonomy (Invalid_orientation _) = InvalidConfig"
| "taxonomy (Cannot_assign_colors _ _) = ArityMismatch"
| "taxonomy (Incorrect_data _ _) = ArityMismatch"
| "taxonomy Colors_after_render_frame = LifecycleViolation"
| "taxonomy Set_layout_twice = LifecycleViolation"
| "taxonomy Not_FigureCanvasAgg = BackendContractViolation"
| "taxonomy AssertionError = BackendContractViolation"
| "taxonomy _ = Uncategorised"

subsection \<open>Helpers of \<^verbatim>\<open>ovgenpy.util\<close>\<close>

text \<open>
  Modelled from the spec: \<^verbatim>\<open>ovgenpy.util.ceildiv\<close> is imported by the renderer and is not
  among the sources. The specification writes its result as \<open>ceil(n / d)\<close>; a zero divisor
  is Python's ZeroDivisionError.
\<close>

definition ceildiv :: "int \<Rightarrow> int \<Rightarrow> error + int" where
  "ceildiv n d = (if d = 0 then Inl ZeroDivisionError else Inr \<lceil>real_of_int n / real_of_int d\<rceil>)"

text \<open>
  Modelled from the spec: \<^verbatim>\<open>ovgenpy.util.coalesce\<close> is imported by the renderer and is not
  among the sources. The specification's ColorResolver: the override if present, else the
  global default.
\<close>

definition coalesce :: "'a option \<Rightarrow> 'a \<Rightarrow> 'a" where
  "coalesce override globalDefault = (case override of Some c \<Rightarrow> c | None \<Rightarrow> globalDefault)"

text \<open>Python's truth value of an \<^verbatim>\<open>Optional[int]\<close>: \<^verbatim>\<open>None\<close> and \<open>0\<close> are false.\<close>

definition truthy :: "int option \<Rightarrow> bool" where
  "truthy x = (case x of None \<Rightarrow> False | Some k \<Rightarrow> k \<noteq> 0)"

subsection \<open>\<^verbatim>\<open>LayoutConfig\<close>\<close>

record LayoutConfig =
  cfg_nrows :: "int option"
  cfg_ncols :: "int option"
  cfg_orientation :: string

text \<open>
  \<^verbatim>\<open>__post_init__\<close>, statement by statement: \<open>self1\<close> after the first \<^verbatim>\<open>if\<close>,
  \<open>self2\<close> after the second.
\<close>

definition LayoutConfig_post_init :: "LayoutConfig \<Rightarrow> error + LayoutConfig" where
  "LayoutConfig_post_init self =
    (let self1 = (if \<not> truthy (cfg_nrows self) then self\<lparr>cfg_nrows := None\<rparr> else self);
         self2 = (if \<not> truthy (cfg_ncols self1) then self1\<lparr>cfg_ncols := None\<rparr> else self1)
     in if truthy (cfg_nrows self2) \<and> truthy (cfg_ncols self2) then Inl Both_nrows_and_ncols
        else if \<not> truthy (cfg_nrows self2) \<and> \<not> truthy (cfg_ncols self2)
          then Inr (self2\<lparr>cfg_ncols := Some 1\<rparr>)
        else Inr self2)"

text \<open>
  The constructor of the configuration class: the fields are assigned, then
  \<^verbatim>\<open>__post_init__\<close> runs.
\<close>

definition LayoutConfig_new :: "int option \<Rightarrow> int option \<Rightarrow> string \<Rightarrow> error + LayoutConfig" where
  "LayoutConfig_new r c ori =
    LayoutConfig_post_init \<lparr>cfg_nrows = r, cfg_ncols = c, cfg_orientation = ori\<rparr>"

subsection \<open>\<^verbatim>\<open>RendererLayout\<close>\<close>

record RendererLayout =
  lcfg :: LayoutConfig
  layout_nplots :: int
  nrows :: int
  ncols :: int
  orientation :: string

definition VALID_ORIENTATIONS :: "string list" where
  "VALID_ORIENTATIONS = [''h'', ''v'']"

definition calc_layout :: "LayoutConfig \<Rightarrow> int \<Rightarrow> error + (int \<times> int)" where
  "calc_layout cfg n =
    (if truthy (cfg_nrows cfg) then
       (case cfg_nrows cfg of
          None \<Rightarrow> Inl Nrows_is_None
        | Some r \<Rightarrow> (case ceildiv n r of Inl e \<Rightarrow> Inl e | Inr c \<Rightarrow> Inr (r, c)))
     else
       (case cfg_ncols cfg of
          None \<Rightarrow> Inl Ncols_is_None
        | Some c \<Rightarrow> (case ceildiv n c of Inl e \<Rightarrow> Inl e | Inr r \<Rightarrow> Inr (r, c))))"

definition RendererLayout_init :: "LayoutConfig \<Rightarrow> int \<Rightarrow> error + RendererLayout" where
  "RendererLayout_init cfg n =
    (case calc_layout cfg n of
       Inl e \<Rightarrow> Inl e
     | Inr (r, c) \<Rightarrow>
        if cfg_orientation cfg \<notin> set VALID_ORIENTATIONS
        then Inl (Invalid_orientation (cfg_orientation cfg))
        else Inr \<lparr>lcfg = cfg, layout_nplots = n, nrows = r, ncols = c,
                  orientation = cfg_orientation cfg\<rparr>)"

text \<open>
  What \<^verbatim>\<open>MatplotlibRenderer.__init__\<close> is given and does first: a configuration built by
  its constructor, then \<^verbatim>\<open>RendererLayout(lcfg, nplots)\<close>.
\<close>

definition construct_layout :: "int option \<Rightarrow> int option \<Rightarrow> string \<Rightarrow> int \<Rightarrow> error + RendererLayout" where
  "construct_layout r c ori n =
    (case LayoutConfig_new r c ori of Inl e \<Rightarrow> Inl e | Inr cfg \<Rightarrow> RendererLayout_init cfg n)"

subsection \<open>The numpy calls of \<^verbatim>\<open>arrange\<close>\<close>

text \<open>
  numpy is a library, not part of the repository; these are the calls \<^verbatim>\<open>arrange\<close> makes,
  on shapes of natural numbers. A two-dimensional array is its shape and its elements in
  row-major (C) order, the order in which \<^verbatim>\<open>flatten\<close> returns them.
\<close>

definition arange :: "int \<Rightarrow> nat list" where
  "arange n = [0..<nat n]"

definition unravel_index :: "nat list \<Rightarrow> nat \<times> nat \<Rightarrow> error + (nat list \<times> nat list)" where
  "unravel_index inds shp =
    (case shp of (r, c) \<Rightarrow>
       if list_ex (\<lambda>i. r * c \<le> i) inds then Inl Unravel_out_of_bounds
       else Inr (map (\<lambda>i. i div c) inds, map (\<lambda>i. i mod c) inds))"

record 'a ndarray2 =
  shape :: "nat \<times> nat"
  flat :: "'a list"

definition reshape :: "'a list \<Rightarrow> nat \<times> nat \<Rightarrow> error + 'a ndarray2" where
  "reshape xs shp =
    (case shp of (r, c) \<Rightarrow>
       if length xs \<noteq> r * c then Inl Cannot_reshape else Inr \<lparr>shape = (r, c), flat = xs\<rparr>)"

text \<open>
  \<^verbatim>\<open>a.T\<close>: the element at \<open>[j][i]\<close> of the transpose is the element at \<open>[i][j]\<close> of
  \<open>a\<close>, that is \<open>flat a ! (i * c + j)\<close>.
\<close>

definition ndarray_T :: "'a ndarray2 \<Rightarrow> 'a ndarray2" where
  "ndarray_T a =
    (case shape a of (r, c) \<Rightarrow>
       \<lparr>shape = (c, r),
        flat = concat (map (\<lambda>j. map (\<lambda>i. flat a ! (i * c + j)) [0..<r]) [0..<c])\<rparr>)"

definition flatten :: "'a ndarray2 \<Rightarrow> 'a list" where
  "flatten a = flat a"

text \<open>Python's slice \<^verbatim>\<open>xs[:n]\<close>: a negative \<open>n\<close> counts from the end.\<close>

definition slice_to :: "'a list \<Rightarrow> int \<Rightarrow> 'a list" where
  "slice_to xs n = (if 0 \<le> n then take (nat n) xs else take (nat (int (length xs) + n)) xs)"

text \<open>
  A list comprehension whose body has an effect: the calls are made from left to right and
  each sees the state the one before it left.
\<close>

fun comprehension :: "('a \<Rightarrow> 's \<Rightarrow> 'b \<times> 's) \<Rightarrow> 'a list \<Rightarrow> 's \<Rightarrow> 'b list \<times> 's" where
  "comprehension f [] s = ([], s)"
| "comprehension f (x # xs) s =
    (case f x s of (y, s1) \<Rightarrow>
       (case comprehension f xs s1 of (ys, s2) \<Rightarrow> (y # ys, s2)))"

subsection \<open>\<^verbatim>\<open>RendererLayout.arrange\<close>\<close>

text \<open>
  The region factory is a callback with effects of its own (it allocates a region of the
  backend), so it takes and returns a state \<open>'s\<close>. The binding names are the source's.
  With a negative \<open>nrows\<close> or \<open>ncols\<close> numpy is handed a negative shape, where the model
  stops.
\<close>

definition arrange ::
  "RendererLayout \<Rightarrow> (nat \<Rightarrow> nat \<Rightarrow> 's \<Rightarrow> 'r \<times> 's) \<Rightarrow> 's \<Rightarrow> error + ('r list \<times> 's)" where
  "arrange self region_factory s =
    (if nrows self < 0 \<or> ncols self < 0 then Inl Negative_shape
     else
       let shp = (nat (nrows self), nat (ncols self));
           nspaces = nrows self * ncols self;
           inds = arange nspaces
       in case unravel_index inds shp of
            Inl e \<Rightarrow> Inl e
          | Inr (rows, cols) \<Rightarrow>
              let row_col = zip rows cols in
              (case comprehension (\<lambda>(row, col). region_factory row col) row_col s of
                 (regions, s') \<Rightarrow>
                   (case reshape regions shp of
                      Inl e \<Rightarrow> Inl e
                    | Inr regions2d \<Rightarrow>
                        let regions2d' =
                              (if orientation self = ''v'' then ndarray_T regions2d else regions2d)
                        in Inr (slice_to (flatten regions2d') (layout_nplots self), s'))))"

text \<open>
  A region factory that returns \<open>f row col\<close> and writes each call down: the state is the
  list of the calls made so far, oldest first.
\<close>

definition recording :: "(nat \<Rightarrow> nat \<Rightarrow> 'r) \<Rightarrow> nat \<Rightarrow> nat \<Rightarrow> (nat \<times> nat) list \<Rightarrow> 'r \<times> (nat \<times> nat) list" where
  "recording f row col calls = (f row col, calls @ [(row, col)])"

section \<open>The renderer\<close>

subsection \<open>The matplotlib objects the renderer holds\<close>

text \<open>
  matplotlib is the graphics backend, not part of the repository. The model keeps of it
  what the renderer writes and reads, and what decides whether \<^verbatim>\<open>canvas.draw()\<close> and
  \<^verbatim>\<open>canvas.tostring_rgb()\<close> return or raise: a figure with its face colour, its Axes,
  its line artists and its canvas. Colours (\<^verbatim>\<open>Any\<close> in the source), line widths and
  samples (floats) are only stored and passed on, so they are the type parameters \<open>'c\<close>,
  \<open>'w\<close> and \<open>'d\<close>. The Axes and the lines are mutable objects that the renderer and
  the figure share: the figure owns a store of each, and \<^verbatim>\<open>_axes\<close> and \<^verbatim>\<open>_lines\<close>
  hold addresses (indices) into these stores. \<open>None\<close> for a limit or a face colour is the
  backend's default, not yet set by the renderer.
\<close>

type_synonym bytes = "8 word list"

datatype canvas_class = FigureCanvasAgg | OtherCanvas

text \<open>
  The canvas of the Agg backend, which the source selects (\<^verbatim>\<open>matplotlib.use('agg')\<close>),
  has no renderer and so no pixels until it is drawn for the first time:
  \<^verbatim>\<open>tostring_rgb()\<close> reads the attribute \<^verbatim>\<open>renderer\<close> of the canvas, which
  \<^verbatim>\<open>draw()\<close> creates, and raises AttributeError before that.
\<close>

record Canvas =
  canvas_class :: canvas_class        \<comment> \<open>\<^verbatim>\<open>type(canvas)\<close>\<close>
  get_width_height :: "int \<times> int"      \<comment> \<open>\<^verbatim>\<open>canvas.get_width_height()\<close>\<close>
  canvas_renderer :: "bytes option"   \<comment> \<open>\<^verbatim>\<open>canvas.renderer\<close>: the pixels, once there was a draw\<close>

definition tostring_rgb :: "Canvas \<Rightarrow> error + bytes" where
  "tostring_rgb cv = (case canvas_renderer cv of None \<Rightarrow> Inl AttributeError | Some buf \<Rightarrow> Inr buf)"

record Axes =
  axis_on :: bool
  xlim :: "(int \<times> int) option"
  ylim :: "(int \<times> int) option"

text \<open>
  \<open>xdata\<close> and \<open>ydata\<close> are the data a line was given, which \<^verbatim>\<open>get_xdata()\<close> and
  \<^verbatim>\<open>get_ydata()\<close> answer.
\<close>

record ('c, 'w, 'd) Line2D =
  line_axes :: nat                    \<comment> \<open>the Axes the line was plotted on\<close>
  xdata :: "nat list"
  ydata :: "'d list"
  color :: 'c
  linewidth :: "'w option"

text \<open>
  Besides the data it was given, a line keeps the x array of the points it last built
  (\<^verbatim>\<open>Line2D._x\<close>), and builds its next points from that array when only its y data was
  set since. \<open>cached_x\<close> holds this array for each line of \<open>fig_lines\<close>.
\<close>

record ('c, 'w, 'd) Figure =
  facecolor :: "'c option"
  fig_axes :: "Axes list"             \<comment> \<open>\<^verbatim>\<open>axes2d\<close>, row by row\<close>
  fig_lines :: "('c, 'w, 'd) Line2D list"
  cached_x :: "nat list list"
  canvas :: Canvas

text \<open>
  What the backend decides and the renderer does not: the class of the canvas of a new
  figure and its size, the size of the canvas once the figure has its resolution and its
  size in inches (floats in the source), and the pixels that the renderer of the canvas
  holds when the figure was drawn.
\<close>

record ('c, 'w, 'd) Backend =
  new_canvas_class :: canvas_class
  new_width_height :: "int \<times> int"
  set_size :: "nat \<Rightarrow> int \<Rightarrow> int \<Rightarrow> int \<times> int"
  rasterize :: "('c, 'w, 'd) Figure \<Rightarrow> bytes"

text \<open>
  \<^verbatim>\<open>plt.subplots(nrows, ncols, squeeze=False, ...)\<close>: a new figure and one Axes for each
  cell of the grid. A negative dimension is outside the model, as for \<^verbatim>\<open>arrange\<close>.
\<close>

definition subplots :: "('c, 'w, 'd) Backend \<Rightarrow> int \<Rightarrow> int \<Rightarrow> error + ('c, 'w, 'd) Figure" where
  "subplots B nr nc =
    (if nr < 0 \<or> nc < 0 then Inl Negative_shape
     else Inr \<lparr>facecolor = None,
               fig_axes = replicate (nat nr * nat nc) \<lparr>axis_on = True, xlim = None, ylim = None\<rparr>,
               fig_lines = [],
               cached_x = [],
               canvas = \<lparr>canvas_class = new_canvas_class B, get_width_height = new_width_height B,
                         canvas_renderer = None\<rparr>\<rparr>)"

definition set_axis_off :: "Axes \<Rightarrow> Axes" where
  "set_axis_off ax = ax\<lparr>axis_on := False\<rparr>"

definition set_xlim :: "nat \<Rightarrow> int \<times> int \<Rightarrow> ('c, 'w, 'd) Figure \<Rightarrow> ('c, 'w, 'd) Figure" where
  "set_xlim ax bounds fg =
    fg\<lparr>fig_axes := (fig_axes fg)[ax := (fig_axes fg ! ax)\<lparr>xlim := Some bounds\<rparr>]\<rparr>"

definition set_ylim :: "nat \<Rightarrow> int \<times> int \<Rightarrow> ('c, 'w, 'd) Figure \<Rightarrow> ('c, 'w, 'd) Figure" where
  "set_ylim ax bounds fg =
    fg\<lparr>fig_axes := (fig_axes fg)[ax := (fig_axes fg ! ax)\<lparr>ylim := Some bounds\<rparr>]\<rparr>"

text \<open>
  \<^verbatim>\<open>ax.plot(data, color=..., linewidth=...)[0]\<close>: a new line over the x values
  \<open>0, ..., len(data) - 1\<close>, which builds its points when it is added to the Axes; its
  address is returned.
\<close>

definition plot ::
  "nat \<Rightarrow> 'd list \<Rightarrow> 'c \<Rightarrow> 'w option \<Rightarrow> ('c, 'w, 'd) Figure \<Rightarrow> nat \<times> ('c, 'w, 'd) Figure" where
  "plot ax data c lw fg =
    (length (fig_lines fg),
     fg\<lparr>fig_lines := fig_lines fg @
          [\<lparr>line_axes = ax, xdata = [0..<length data], ydata = data, color = c, linewidth = lw\<rparr>],
        cached_x := cached_x fg @ [[0..<length data]]\<rparr>)"

text \<open>\<^verbatim>\<open>line.set_ydata(data)\<close> stores the data; the points are built at the next draw.\<close>

definition set_ydata :: "nat \<Rightarrow> 'd list \<Rightarrow> ('c, 'w, 'd) Figure \<Rightarrow> ('c, 'w, 'd) Figure" where
  "set_ydata line data fg =
    fg\<lparr>fig_lines := (fig_lines fg)[line := (fig_lines fg ! line)\<lparr>ydata := data\<rparr>]\<rparr>"

text \<open>
  A line builds its points (\<^verbatim>\<open>Line2D.recache\<close>) from the x array it kept and its y
  data, which numpy broadcasts to one shape: two arrays of one dimension fit when they
  have the same length or one of them has one element, which is then repeated; otherwise
  numpy raises ValueError. The broadcast x array is the one the line keeps from then on.
\<close>

definition broadcast_shape :: "nat \<Rightarrow> nat \<Rightarrow> nat option" where
  "broadcast_shape m n =
    (if m = n \<or> n = 1 then Some m else if m = 1 then Some n else None)"

definition broadcast_to :: "'a list \<Rightarrow> nat \<Rightarrow> 'a list" where
  "broadcast_to xs n = (if length xs = n then xs else replicate n (hd xs))"

definition recache :: "nat \<Rightarrow> ('c, 'w, 'd) Figure \<Rightarrow> error + ('c, 'w, 'd) Figure" where
  "recache line fg =
    (case broadcast_shape (length (cached_x fg ! line)) (length (ydata (fig_lines fg ! line))) of
       None \<Rightarrow> Inl Shape_mismatch
     | Some n \<Rightarrow> Inr (fg\<lparr>cached_x := (cached_x fg)[line := broadcast_to (cached_x fg ! line) n]\<rparr>))"

text \<open>
  The figure draws its Axes in the order of their creation, and each Axes its lines. A
  line that raises ends the draw; the lines before it have built their points. An error
  comes with the figure as the draw left it.
\<close>

definition draw_order :: "('c, 'w, 'd) Figure \<Rightarrow> nat list" where
  "draw_order fg =
    concat (map (\<lambda>ax. filter (\<lambda>line. line_axes (fig_lines fg ! line) = ax)
                          [0..<length (fig_lines fg)])
                [0..<length (fig_axes fg)])"

fun draw_lines ::
  "nat list \<Rightarrow> ('c, 'w, 'd) Figure \<Rightarrow> (error \<times> ('c, 'w, 'd) Figure) + ('c, 'w, 'd) Figure" where
  "draw_lines [] fg = Inr fg"
| "draw_lines (line # rest) fg =
    (case recache line fg of
       Inl e \<Rightarrow> Inl (e, fg)
     | Inr fg' \<Rightarrow> draw_lines rest fg')"

text \<open>
  \<^verbatim>\<open>canvas.draw()\<close>: the canvas makes its renderer, then the figure is drawn. The
  renderer is there from then on, also when a line raised; the pixels it holds are what
  the backend makes of the figure.
\<close>

definition with_renderer ::
  "('c, 'w, 'd) Backend \<Rightarrow> ('c, 'w, 'd) Figure \<Rightarrow> ('c, 'w, 'd) Figure" where
  "with_renderer B fg = fg\<lparr>canvas := (canvas fg)\<lparr>canvas_renderer := Some (rasterize B fg)\<rparr>\<rparr>"

definition canvas_draw ::
  "('c, 'w, 'd) Backend \<Rightarrow> ('c, 'w, 'd) Figure \<Rightarrow>
     (error \<times> ('c, 'w, 'd) Figure) + ('c, 'w, 'd) Figure" where
  "canvas_draw B fg =
    (case draw_lines (draw_order fg) fg of
       Inl (e, fg') \<Rightarrow> Inl (e, with_renderer B fg')
     | Inr fg' \<Rightarrow> Inr (with_renderer B fg'))"

subsection \<open>\<^verbatim>\<open>RendererConfig\<close>, \<^verbatim>\<open>ChannelConfig\<close> and \<^verbatim>\<open>MatplotlibRenderer\<close>\<close>

record ('c, 'w) RendererConfig =
  width :: int
  height :: int
  bg_color :: 'c
  init_line_color :: 'c
  line_width :: "'w option"
  create_window :: bool

text \<open>
  Modelled from the spec: \<^verbatim>\<open>ovgenpy.channel.ChannelConfig\<close> is not among the sources; the
  renderer reads its \<^verbatim>\<open>line_color\<close> only, the optional colour override of a channel.
\<close>

record 'c ChannelConfig =
  line_color :: "'c option"

text \<open>
  Modelled from the spec: \<^verbatim>\<open>ovgenpy.outputs.RGB_DEPTH\<close> is not among the sources; the
  specification has three bytes for each pixel.
\<close>

definition RGB_DEPTH :: int where
  "RGB_DEPTH = 3"

definition DPI :: nat where
  "DPI = 96"

record ('c, 'w, 'd) MatplotlibRenderer =
  renderer_cfg :: "('c, 'w) RendererConfig"   \<comment> \<open>\<^verbatim>\<open>cfg\<close>\<close>
  nplots :: int
  layout :: RendererLayout
  fig :: "('c, 'w, 'd) Figure option"     \<comment> \<open>\<^verbatim>\<open>_fig\<close>\<close>
  axes :: "nat list option"               \<comment> \<open>\<^verbatim>\<open>_axes\<close>\<close>
  lines :: "nat list option"              \<comment> \<open>\<^verbatim>\<open>_lines\<close>\<close>
  line_colors :: "'c option list"         \<comment> \<open>\<^verbatim>\<open>_line_colors\<close>\<close>

text \<open>
  \<^verbatim>\<open>_set_layout\<close>. The region factory \<^verbatim>\<open>lambda row, col: axes2d[row, col]\<close> returns
  the address of the Axes of that cell and has no effect. \<^verbatim>\<open>set_dpi\<close> and
  \<^verbatim>\<open>set_size_inches\<close> give the canvas the size that the backend's \<open>set_size\<close>
  answers (the sizes in inches are floats and stay with the backend); they draw nothing.
  \<^verbatim>\<open>plt.show\<close> changes nothing the renderer holds.
\<close>

definition set_layout ::
  "('c, 'w, 'd) Backend \<Rightarrow> ('c, 'w, 'd) MatplotlibRenderer \<Rightarrow> error + ('c, 'w, 'd) MatplotlibRenderer" where
  "set_layout B self =
    (case fig self of
       Some _ \<Rightarrow> Inl Set_layout_twice
     | None \<Rightarrow>
        (case subplots B (nrows (layout self)) (ncols (layout self)) of
           Inl e \<Rightarrow> Inl e
         | Inr fg \<Rightarrow>
            let fg1 = fg\<lparr>fig_axes := map set_axis_off (fig_axes fg)\<rparr> in
            (case arrange (layout self)
                    (\<lambda>row col st. (row * nat (ncols (layout self)) + col, st)) () of
               Inl e \<Rightarrow> Inl e
             | Inr (axs, _) \<Rightarrow>
                let fg2 = fg1\<lparr>canvas := (canvas fg1)\<lparr>get_width_height :=
                      set_size B DPI (width (renderer_cfg self)) (height (renderer_cfg self))\<rparr>\<rparr>
                in Inr (self\<lparr>fig := Some fg2, axes := Some axs\<rparr>))))"

definition MatplotlibRenderer_init ::
  "('c, 'w, 'd) Backend \<Rightarrow> ('c, 'w) RendererConfig \<Rightarrow> LayoutConfig \<Rightarrow> int \<Rightarrow>
     error + ('c, 'w, 'd) MatplotlibRenderer" where
  "MatplotlibRenderer_init B rcfg lc n =
    (case RendererLayout_init lc n of
       Inl e \<Rightarrow> Inl e
     | Inr l \<Rightarrow>
        set_layout B \<lparr>renderer_cfg = rcfg, nplots = n, layout = l, fig = None, axes = None,
                      lines = None, line_colors = replicate (nat n) None\<rparr>)"

text \<open>
  The renderer as a caller builds it: the layout configuration by its constructor, then
  \<^verbatim>\<open>MatplotlibRenderer(cfg, lcfg, nplots)\<close>.
\<close>

definition construct_renderer ::
  "('c, 'w, 'd) Backend \<Rightarrow> ('c, 'w) RendererConfig \<Rightarrow> int option \<Rightarrow> int option \<Rightarrow> string \<Rightarrow> int \<Rightarrow>
     error + ('c, 'w, 'd) MatplotlibRenderer" where
  "construct_renderer B rcfg r c ori n =
    (case LayoutConfig_new r c ori of
       Inl e \<Rightarrow> Inl e
     | Inr cfg \<Rightarrow> MatplotlibRenderer_init B rcfg cfg n)"

definition set_colors ::
  "('c, 'w, 'd) MatplotlibRenderer \<Rightarrow> 'c ChannelConfig list \<Rightarrow> error + ('c, 'w, 'd) MatplotlibRenderer" where
  "set_colors self channel_cfgs =
    (if int (length channel_cfgs) \<noteq> nplots self
       then Inl (Cannot_assign_colors (int (length channel_cfgs)) (nplots self))
     else if lines self \<noteq> None then Inl Colors_after_render_frame
     else Inr (self\<lparr>line_colors := map line_color channel_cfgs\<rparr>))"

text \<open>
  \<^verbatim>\<open>render_frame\<close> writes to the figure before it can raise. A part of it that raises
  answers \<open>Inl\<close> with the error and with what it has written up to there; a part that
  returns answers \<open>Inr\<close>.

  The loop of the first call of \<^verbatim>\<open>render_frame\<close>, over \<^verbatim>\<open>enumerate(datas)\<close> from
  \<open>idx\<close> on: the figure and the list \<^verbatim>\<open>self._lines\<close> built so far are passed along.
\<close>

fun plot_lines ::
  "('c, 'w) RendererConfig \<Rightarrow> 'c option list \<Rightarrow> nat list option \<Rightarrow> nat \<Rightarrow> 'd list list \<Rightarrow>
     ('c, 'w, 'd) Figure \<times> nat list \<Rightarrow>
     (error \<times> ('c, 'w, 'd) Figure \<times> nat list) + (('c, 'w, 'd) Figure \<times> nat list)" where
  "plot_lines rcfg colors axs idx [] (fg, ls) = Inr (fg, ls)"
| "plot_lines rcfg colors axs idx (data # datas) (fg, ls) =
    (if length colors \<le> idx then Inl (IndexError, fg, ls)
     else
       let line_color = coalesce (colors ! idx) (init_line_color rcfg) in
       (case axs of
          None \<Rightarrow> Inl (TypeError, fg, ls)
        | Some a \<Rightarrow>
           if length a \<le> idx then Inl (IndexError, fg, ls)
           else
             let ax = a ! idx;
                 fg1 = set_xlim ax (0, int (length data) - 1) fg;
                 fg2 = set_ylim ax (- 1, 1) fg1
             in (case plot ax data line_color (line_width rcfg) fg2 of
                   (line, fg3) \<Rightarrow> plot_lines rcfg colors axs (Suc idx) datas (fg3, ls @ [line]))))"

text \<open>The loop of every later call.\<close>

fun update_lines ::
  "nat list \<Rightarrow> nat \<Rightarrow> 'd list list \<Rightarrow> ('c, 'w, 'd) Figure \<Rightarrow>
     (error \<times> ('c, 'w, 'd) Figure) + ('c, 'w, 'd) Figure" where
  "update_lines ls idx [] fg = Inr fg"
| "update_lines ls idx (data # datas) fg =
    (if length ls \<le> idx then Inl (IndexError, fg)
     else update_lines ls (Suc idx) datas (set_ydata (ls ! idx) data fg))"

text \<open>
  \<^verbatim>\<open>render_frame\<close>. A call that raises answers \<open>Inl\<close> with the error and the renderer
  as the call leaves it, a call that returns answers \<open>Inr\<close> with the renderer. The
  errors a renderer that was built by its constructor can meet are the first one, raised
  before anything is written, and the one of \<^verbatim>\<open>canvas.draw()\<close>, raised when the lines
  hold the new data (lemma \<open>render_frame_errors\<close>). \<^verbatim>\<open>flush_events\<close> changes nothing
  the renderer holds.
\<close>

definition render_frame ::
  "('c, 'w, 'd) Backend \<Rightarrow> ('c, 'w, 'd) MatplotlibRenderer \<Rightarrow> 'd list list \<Rightarrow>
     (error \<times> ('c, 'w, 'd) MatplotlibRenderer) + ('c, 'w, 'd) MatplotlibRenderer" where
  "render_frame B self datas =
    (let ndata = int (length datas) in
     if nplots self \<noteq> ndata then Inl (Incorrect_data (nplots self) ndata, self)
     else
       (case fig self of
          None \<Rightarrow> Inl (AttributeError, self)
        | Some fg \<Rightarrow>
           (case (case lines self of
                    None \<Rightarrow>
                      plot_lines (renderer_cfg self) (line_colors self) (axes self) 0 datas
                        (fg\<lparr>facecolor := Some (bg_color (renderer_cfg self))\<rparr>, [])
                  | Some ls \<Rightarrow>
                      (case update_lines ls 0 datas fg of
                         Inl (e, fg') \<Rightarrow> Inl (e, fg', ls)
                       | Inr fg' \<Rightarrow> Inr (fg', ls))) of
              Inl (e, fg', ls') \<Rightarrow> Inl (e, self\<lparr>fig := Some fg', lines := Some ls'\<rparr>)
            | Inr (fg', ls') \<Rightarrow>
                (case canvas_draw B fg' of
                   Inl (e, fg'') \<Rightarrow> Inl (e, self\<lparr>fig := Some fg'', lines := Some ls'\<rparr>)
                 | Inr fg'' \<Rightarrow> Inr (self\<lparr>fig := Some fg'', lines := Some ls'\<rparr>)))))"

text \<open>
  \<^verbatim>\<open>get_frame\<close> writes nothing, so an error comes alone.
\<close>

definition get_frame :: "('c, 'w, 'd) MatplotlibRenderer \<Rightarrow> error + bytes" where
  "get_frame self =
    (case fig self of
       None \<Rightarrow> Inl AttributeError
     | Some fg \<Rightarrow>
        let cv = canvas fg in
        if canvas_class cv \<noteq> FigureCanvasAgg then Inl Not_FigureCanvasAgg
        else
          let w = width (renderer_cfg self); h = height (renderer_cfg self) in
          if (w, h) \<noteq> get_width_height cv then Inl AssertionError
          else
            (case tostring_rgb cv of
               Inl e \<Rightarrow> Inl e
             | Inr buffer_rgb \<Rightarrow>
                 if int (length buffer_rgb) \<noteq> w * h * RGB_DEPTH then Inl AssertionError
                 else Inr buffer_rgb))"

subsection \<open>The states a renderer can be in\<close>

text \<open>
  A renderer exists once its constructor has returned; from then on its state changes
  through \<^verbatim>\<open>set_colors\<close> and \<^verbatim>\<open>render_frame\<close> only. A caller that catches the
  error of a \<^verbatim>\<open>render_frame\<close> goes on with the renderer as that call left it.
\<close>

inductive reachable :: "('c, 'w, 'd) Backend \<Rightarrow> ('c, 'w, 'd) MatplotlibRenderer \<Rightarrow> bool"
  for B :: "('c, 'w, 'd) Backend" where
  constructed: "MatplotlibRenderer_init B rcfg lc n = Inr self \<Longrightarrow> reachable B self"
| coloured: "reachable B self \<Longrightarrow> set_colors self channel_cfgs = Inr self' \<Longrightarrow> reachable B self'"
| rendered: "reachable B self \<Longrightarrow> render_frame B self datas = Inr self' \<Longrightarrow> reachable B self'"
| raised: "reachable B self \<Longrightarrow> render_frame B self datas = Inl (e, self') \<Longrightarrow> reachable B self'"

subsection \<open>Auxiliary definitions for the proofs\<close>

text \<open>
  The cells of the grid in row-major order, and what \<^verbatim>\<open>arrange\<close> does with the regions
  once they are created (reshape, transpose for \<^verbatim>\<open>'v'\<close>, flatten, slice).
\<close>

definition cells :: "RendererLayout \<Rightarrow> (nat \<times> nat) list" where
  "cells self = map (\<lambda>i. (i div nat (ncols self), i mod nat (ncols self)))
                    [0..<nat (nrows self) * nat (ncols self)]"

definition assignment :: "RendererLayout \<Rightarrow> 'r list \<Rightarrow> 'r list" where
  "assignment self regions =
     slice_to (if orientation self = ''v''
               then concat (map (\<lambda>j. map (\<lambda>i. regions ! (i * nat (ncols self) + j))
                           [0..<nat (nrows self)]) [0..<nat (ncols self)])
               else regions) (layout_nplots self)"

text \<open>The grid of the specification's examples: two rows, three columns, five channels.\<close>

definition grid23 :: "string \<Rightarrow> RendererLayout" where
  "grid23 ori = \<lparr>lcfg = \<lparr>cfg_nrows = Some 2, cfg_ncols = None, cfg_orientation = ori\<rparr>,
          layout_nplots = 5, nrows = 2, ncols = 3, orientation = ori\<rparr>"

subsection \<open>What the constructor establishes\<close>

text \<open>
  In every state of a renderer the figure and the list of Axes exist, \<^verbatim>\<open>_axes\<close> holds
  one Axes for each channel, no Axes twice, \<^verbatim>\<open>_line_colors\<close> has one entry for each
  channel, every line is on an Axes of the figure and keeps an x array as long as its x
  data unless that has one element, and the figure has no line and the canvas no renderer
  before the first frame, one line for each channel and a renderer after it (lemma
  \<open>reachable_inv\<close>).
\<close>

definition kept_x :: "('c, 'w, 'd) Figure \<Rightarrow> bool" where
  "kept_x fg =
    list_all2 (\<lambda>line xs. length (xdata line) \<noteq> 1 \<longrightarrow> length xs = length (xdata line))
      (fig_lines fg) (cached_x fg)"

definition renderer_inv :: "('c, 'w, 'd) MatplotlibRenderer \<Rightarrow> bool" where
  "renderer_inv self =
    (case fig self of
       None \<Rightarrow> False
     | Some fg \<Rightarrow>
        (case axes self of
           None \<Rightarrow> False
         | Some a \<Rightarrow>
            length a = nat (nplots self) \<and> distinct a
            \<and> list_all (\<lambda>x. x < length (fig_axes fg)) a
            \<and> length (line_colors self) = nat (nplots self)
            \<and> list_all (\<lambda>line. line_axes line < length (fig_axes fg)) (fig_lines fg)
            \<and> kept_x fg
            \<and> (case lines self of
                 None \<Rightarrow> fig_lines fg = [] \<and> canvas_renderer (canvas fg) = None
               | Some ls \<Rightarrow> ls = [0..<nat (nplots self)]
                            \<and> length (fig_lines fg) = nat (nplots self)
                            \<and> canvas_renderer (canvas fg) \<noteq> None)))"

text \<open>The state that a call leaves, whether it raised or returned.\<close>

definition state_after :: "(error \<times> 's) + 's \<Rightarrow> 's" where
  "state_after r = (case r of Inl (e, s) \<Rightarrow> s | Inr s \<Rightarrow> s)"

text \<open>Whether a line can build its points.\<close>

definition fits :: "('c, 'w, 'd) Figure \<Rightarrow> nat \<Rightarrow> bool" where
  "fits fg line =
    (broadcast_shape (length (cached_x fg ! line)) (length (ydata (fig_lines fg ! line))) \<noteq> None)"

text \<open>The line and the limits that the first frame gives channel \<open>i\<close>.\<close>

definition first_line ::
  "('c, 'w) RendererConfig \<Rightarrow> 'c option list \<Rightarrow> nat list \<Rightarrow> nat \<Rightarrow> 'd list \<Rightarrow> ('c, 'w, 'd) Line2D" where
  "first_line rcfg colors a i data =
    \<lparr>line_axes = a ! i, xdata = [0..<length data], ydata = data,
     color = (case colors ! i of Some c \<Rightarrow> c | None \<Rightarrow> init_line_color rcfg),
     linewidth = line_width rcfg\<rparr>"

definition first_limits :: "'d list \<Rightarrow> Axes \<Rightarrow> Axes" where
  "first_limits data ax = ax\<lparr>xlim := Some (0, int (length data) - 1), ylim := Some (- 1, 1)\<rparr>"

subsection \<open>Example values\<close>

text \<open>
  A backend with an Agg canvas that takes the size it is asked for and is white all over
  after a draw; a configuration, and the three channels of the specification's scenario.
  \<open>demo0\<close> is the renderer as its constructor returns it, \<open>demo1\<close> after the first
  frame, \<open>demo2\<close> as a second frame whose channels have other lengths leaves it.
\<close>

definition demo_backend :: "(string, nat, int) Backend" where
  "demo_backend =
    \<lparr>new_canvas_class = FigureCanvasAgg,
     new_width_height = (640, 480),
     set_size = (\<lambda>dpi w h. (w, h)),
     rasterize = (\<lambda>fg. replicate (nat (fst (get_width_height (canvas fg))
                                       * snd (get_width_height (canvas fg)) * 3)) 255)\<rparr>"

definition demo_cfg :: "(string, nat) RendererConfig" where
  "demo_cfg = \<lparr>width = 2, height = 1, bg_color = ''black'', init_line_color = ''blue'',
               line_width = None, create_window = False\<rparr>"

definition demo_lcfg :: LayoutConfig where
  "demo_lcfg = \<lparr>cfg_nrows = Some 1, cfg_ncols = None, cfg_orientation = ''h''\<rparr>"

definition demo_datas :: "int list list" where
  "demo_datas = [[0, 1, 0], [1, - 1, 1], [0, 0, 0]]"

definition demo0 :: "(string, nat, int) MatplotlibRenderer" where
  "demo0 =
    \<lparr>renderer_cfg = demo_cfg, nplots = 3,
     layout = \<lparr>lcfg = demo_lcfg, layout_nplots = 3, nrows = 1, ncols = 3, orientation = ''h''\<rparr>,
     fig = Some \<lparr>facecolor = None,
                 fig_axes = replicate 3 \<lparr>axis_on = False, xlim = None, ylim = None\<rparr>,
                 fig_lines = [],
                 cached_x = [],
                 canvas = \<lparr>canvas_class = FigureCanvasAgg, get_width_height = (2, 1),
                           canvas_renderer = None\<rparr>\<rparr>,
     axes = Some [0, 1, 2], lines = None, line_colors = [None, None, None]\<rparr>"

definition demo1 :: "(string, nat, int) MatplotlibRenderer" where
  "demo1 = demo0
    \<lparr>fig := Some \<lparr>facecolor = Some ''black'',
                  fig_axes = replicate 3 \<lparr>axis_on = False, xlim = Some (0, 2), ylim = Some (- 1, 1)\<rparr>,
                  fig_lines =
                    [\<lparr>line_axes = 0, xdata = [0, 1, 2], ydata = [0, 1, 0], color = ''blue'', linewidth = None\<rparr>,
                     \<lparr>line_axes = 1, xdata = [0, 1, 2], ydata = [1, - 1, 1], color = ''blue'', linewidth = None\<rparr>,
                     \<lparr>line_axes = 2, xdata = [0, 1, 2], ydata = [0, 0, 0], color = ''blue'', linewidth = None\<rparr>],
                  cached_x = [[0, 1, 2], [0, 1, 2], [0, 1, 2]],
                  canvas = \<lparr>canvas_class = FigureCanvasAgg, get_width_height = (2, 1),
                            canvas_renderer = Some (replicate 6 255)\<rparr>\<rparr>,
     lines := Some [0, 1, 2]\<rparr>"

definition demo2 :: "(string, nat, int) MatplotlibRenderer" where
  "demo2 = demo1
    \<lparr>fig := Some \<lparr>facecolor = Some ''black'',
                  fig_axes = replicate 3 \<lparr>axis_on = False, xlim = Some (0, 2), ylim = Some (- 1, 1)\<rparr>,
                  fig_lines =
                    [\<lparr>line_axes = 0, xdata = [0, 1, 2], ydata = [5], color = ''blue'', linewidth = None\<rparr>,
                     \<lparr>line_axes = 1, xdata = [0, 1, 2], ydata = [6, 7], color = ''blue'', linewidth = None\<rparr>,
                     \<lparr>line_axes = 2, xdata = [0, 1, 2], ydata = [], color = ''blue'', linewidth = None\<rparr>],
                  cached_x = [[0, 1, 2], [0, 1, 2], [0, 1, 2]],
                  canvas = \<lparr>canvas_class = FigureCanvasAgg, get_width_height = (2, 1),
                            canvas_renderer = Some (replicate 6 255)\<rparr>\<rparr>\<rparr>"

text \<open>
  \<open>demo3\<close> is \<open>demo1\<close> after a second frame with channels of the first frame's
  lengths. \<open>short_backend\<close> breaks the contract of the pixel buffer: its renderer
  holds no bytes; \<open>short1\<close> is its renderer after the first frame.
\<close>

definition demo3 :: "(string, nat, int) MatplotlibRenderer" where
  "demo3 = demo1
    \<lparr>fig := Some \<lparr>facecolor = Some ''black'',
                  fig_axes = replicate 3 \<lparr>axis_on = False, xlim = Some (0, 2), ylim = Some (- 1, 1)\<rparr>,
                  fig_lines =
                    [\<lparr>line_axes = 0, xdata = [0, 1, 2], ydata = [9, 9, 9], color = ''blue'', linewidth = None\<rparr>,
                     \<lparr>line_axes = 1, xdata = [0, 1, 2], ydata = [8, 8, 8], color = ''blue'', linewidth = None\<rparr>,
                     \<lparr>line_axes = 2, xdata = [0, 1, 2], ydata = [7, 7, 7], color = ''blue'', linewidth = None\<rparr>],
                  cached_x = [[0, 1, 2], [0, 1, 2], [0, 1, 2]],
                  canvas = \<lparr>canvas_class = FigureCanvasAgg, get_width_height = (2, 1),
                            canvas_renderer = Some (replicate 6 255)\<rparr>\<rparr>\<rparr>"

definition short_backend :: "(string, nat, int) Backend" where
  "short_backend =
    \<lparr>new_canvas_class = FigureCanvasAgg,
     new_width_height = (640, 480),
     set_size = (\<lambda>dpi w h. (w, h)),
     rasterize = (\<lambda>fg. [])\<rparr>"

definition short1 :: "(string, nat, int) MatplotlibRenderer" where
  "short1 = demo0
    \<lparr>fig := Some \<lparr>facecolor = Some ''black'',
                  fig_axes = replicate 3 \<lparr>axis_on = False, xlim = Some (0, 2), ylim = Some (- 1, 1)\<rparr>,
                  fig_lines =
                    [\<lparr>line_axes = 0, xdata = [0, 1, 2], ydata = [0, 1, 0], color = ''blue'', linewidth = None\<rparr>,
                     \<lparr>line_axes = 1, xdata = [0, 1, 2], ydata = [1, - 1, 1], color = ''blue'', linewidth = None\<rparr>,
                     \<lparr>line_axes = 2, xdata = [0, 1, 2], ydata = [0, 0, 0], color = ''blue'', linewidth = None\<rparr>],
                  cached_x = [[0, 1, 2], [0, 1, 2], [0, 1, 2]],
                  canvas = \<lparr>canvas_class = FigureCanvasAgg, get_width_height = (2, 1),
                            canvas_renderer = Some []\<rparr>\<rparr>,
     lines := Some [0, 1, 2]\<rparr>"

section \<open>Properties\<close>

subsection \<open>The ceiling division\<close>

lemma ceildiv_int: "d \<noteq> 0 \<Longrightarrow> ceildiv n d = Inr (- ((- n) div d))"
proof -
  assume "d \<noteq> 0"
  have "\<lceil>real_of_int n / real_of_int d\<rceil> = - \<lfloor>- (real_of_int n / real_of_int d)\<rfloor>"
    by (simp add: ceiling_def)
  also have "- (real_of_int n / real_of_int d) = real_of_int (- n) / real_of_int d"
    by simp
  also have "\<lfloor>real_of_int (- n) / real_of_int d\<rfloor> = (- n) div d"
    by (rule floor_divide_of_int_eq)
  finally show ?thesis
    using \<open>d \<noteq> 0\<close> by (simp add: ceildiv_def)
qed

text \<open>The same as a code equation, so that the layout can be evaluated on integers.\<close>

lemma ceildiv_code [code]:
  "ceildiv n d = (if d = 0 then Inl ZeroDivisionError else Inr (- ((- n) div d)))"
  by (simp add: ceildiv_int) (simp add: ceildiv_def)

subsection \<open>Normalisation and the grid\<close>

text \<open>
  A configuration that came out of \<^verbatim>\<open>__post_init__\<close> has exactly one axis count, and
  that count is not zero.
\<close>

lemma LayoutConfig_post_init_normalized:
  assumes "LayoutConfig_post_init raw = Inr cfg"
  shows "(truthy (cfg_nrows cfg) \<and> cfg_ncols cfg = None) \<or> (cfg_nrows cfg = None \<and> truthy (cfg_ncols cfg))"
  using assms
  by (auto simp: LayoutConfig_post_init_def Let_def truthy_def split: if_splits option.splits)

lemma calc_layout_rows:
  "truthy (Some r) \<Longrightarrow> cfg_nrows cfg = Some r \<Longrightarrow> calc_layout cfg n = Inr (r, \<lceil>real_of_int n / real_of_int r\<rceil>)"
  by (simp add: calc_layout_def truthy_def ceildiv_def)

lemma calc_layout_cols:
  "cfg_nrows cfg = None \<Longrightarrow> cfg_ncols cfg = Some c \<Longrightarrow> truthy (Some c) \<Longrightarrow>
    calc_layout cfg n = Inr (\<lceil>real_of_int n / real_of_int c\<rceil>, c)"
  by (simp add: calc_layout_def truthy_def ceildiv_def)

text \<open>
  Claim C1. For every channel count \<open>n\<close> and every normalised configuration (one that
  \<^verbatim>\<open>__post_init__\<close> returned): if the row count is set, \<^verbatim>\<open>_calc_layout\<close> returns
  that row count and \<open>ceil(n / rows)\<close> columns; otherwise it returns the column count and
  \<open>ceil(n / cols)\<close> rows. In particular seven channels with a row count of three give
  three rows and three columns.
\<close>

theorem computeGrid_rows_cols:
  assumes "LayoutConfig_post_init raw = Inr cfg"
  shows "(\<forall>r. cfg_nrows cfg = Some r \<longrightarrow>
            calc_layout cfg n = Inr (r, \<lceil>real_of_int n / real_of_int r\<rceil>))
       \<and> (cfg_nrows cfg = None \<longrightarrow>
            (\<exists>c. cfg_ncols cfg = Some c \<and>
                 calc_layout cfg n = Inr (\<lceil>real_of_int n / real_of_int c\<rceil>, c)))
       \<and> (case LayoutConfig_new (Some 3) None ori of
             Inl e \<Rightarrow> Inl e
           | Inr cfg' \<Rightarrow> calc_layout cfg' 7) = Inr (3, 3)"
proof (intro conjI allI impI)
  fix r assume r: "cfg_nrows cfg = Some r"
  with LayoutConfig_post_init_normalized [OF assms] have "truthy (Some r)"
    by auto
  then show "calc_layout cfg n = Inr (r, \<lceil>real_of_int n / real_of_int r\<rceil>)"
    using r by (rule calc_layout_rows)
next
  assume none: "cfg_nrows cfg = None"
  with LayoutConfig_post_init_normalized [OF assms] have "truthy (cfg_ncols cfg)"
    by (auto simp: truthy_def)
  then obtain c where c: "cfg_ncols cfg = Some c" "truthy (Some c)"
    by (cases "cfg_ncols cfg") (auto simp: truthy_def)
  from calc_layout_cols [OF none c] c(1)
  show "\<exists>c. cfg_ncols cfg = Some c \<and>
      calc_layout cfg n = Inr (\<lceil>real_of_int n / real_of_int c\<rceil>, c)"
    by blast
next
  show "(case LayoutConfig_new (Some 3) None ori of
             Inl e \<Rightarrow> Inl e
           | Inr cfg' \<Rightarrow> calc_layout cfg' 7) = Inr (3, 3)"
    by (simp add: LayoutConfig_new_def LayoutConfig_post_init_def calc_layout_def truthy_def
        ceildiv_int)
qed

theorem computeGrid_rows_cols_witness:
  "LayoutConfig_post_init \<lparr>cfg_nrows = Some 3, cfg_ncols = Some 0, cfg_orientation = ''h''\<rparr>
     = Inr \<lparr>cfg_nrows = Some 3, cfg_ncols = None, cfg_orientation = ''h''\<rparr>
   \<and> calc_layout \<lparr>cfg_nrows = Some 3, cfg_ncols = None, cfg_orientation = ''h''\<rparr> 7 = Inr (3, 3)
   \<and> LayoutConfig_post_init \<lparr>cfg_nrows = None, cfg_ncols = Some 4, cfg_orientation = ''v''\<rparr>
     = Inr \<lparr>cfg_nrows = None, cfg_ncols = Some 4, cfg_orientation = ''v''\<rparr>
   \<and> calc_layout \<lparr>cfg_nrows = None, cfg_ncols = Some 4, cfg_orientation = ''v''\<rparr> 9 = Inr (3, 4)"
proof -
  have a: "LayoutConfig_post_init \<lparr>cfg_nrows = Some 3, cfg_ncols = Some 0, cfg_orientation = ''h''\<rparr>
     = Inr \<lparr>cfg_nrows = Some 3, cfg_ncols = None, cfg_orientation = ''h''\<rparr>"
    by (simp add: LayoutConfig_post_init_def truthy_def)
  have b: "LayoutConfig_post_init \<lparr>cfg_nrows = None, cfg_ncols = Some 4, cfg_orientation = ''v''\<rparr>
     = Inr \<lparr>cfg_nrows = None, cfg_ncols = Some 4, cfg_orientation = ''v''\<rparr>"
    by (simp add: LayoutConfig_post_init_def truthy_def)
  show ?thesis
    using a b computeGrid_rows_cols [OF a, of 7] computeGrid_rows_cols [OF b, of 9]
    by simp
qed

text \<open>
  Claim C10. \<^verbatim>\<open>__post_init__\<close> treats an axis count of zero as unset: a zero row count
  or a zero column count gives the configuration that \<^verbatim>\<open>None\<close> gives; with both zero
  nothing is raised and the column count defaults to one; with a zero row count and a
  column count \<open>k > 0\<close> the configuration is accepted and the layout is the one of the
  column count \<open>k\<close> alone.
\<close>

theorem zero_axis_count_is_unset:
  "LayoutConfig_new (Some 0) c ori = LayoutConfig_new None c ori
   \<and> LayoutConfig_new r (Some 0) ori = LayoutConfig_new r None ori
   \<and> LayoutConfig_new (Some 0) (Some 0) ori
       = Inr \<lparr>cfg_nrows = None, cfg_ncols = Some 1, cfg_orientation = ori\<rparr>
   \<and> (0 < k \<longrightarrow>
        LayoutConfig_new (Some 0) (Some k) ori
          = Inr \<lparr>cfg_nrows = None, cfg_ncols = Some k, cfg_orientation = ori\<rparr>
        \<and> LayoutConfig_new (Some 0) (Some k) ori = LayoutConfig_new None (Some k) ori
        \<and> construct_layout (Some 0) (Some k) ori n = construct_layout None (Some k) ori n)"
  by (simp add: LayoutConfig_new_def LayoutConfig_post_init_def truthy_def construct_layout_def)

theorem zero_axis_count_is_unset_witness:
  "LayoutConfig_new (Some 0) (Some 5) ''h''
     = Inr \<lparr>cfg_nrows = None, cfg_ncols = Some 5, cfg_orientation = ''h''\<rparr>
   \<and> LayoutConfig_new None (Some 5) ''h''
     = Inr \<lparr>cfg_nrows = None, cfg_ncols = Some 5, cfg_orientation = ''h''\<rparr>
   \<and> construct_layout (Some 0) (Some 5) ''h'' 7 = construct_layout None (Some 5) ''h'' 7"
proof -
  have pos: "(0::int) < 5" by simp
  from zero_axis_count_is_unset [where c = "Some 5" and ori = "''h''" and r = None and k = 5 and n = 7]
  have "LayoutConfig_new (Some 0) (Some 5) ''h''
          = Inr \<lparr>cfg_nrows = None, cfg_ncols = Some 5, cfg_orientation = ''h''\<rparr>
        \<and> LayoutConfig_new (Some 0) (Some 5) ''h'' = LayoutConfig_new None (Some 5) ''h''
        \<and> construct_layout (Some 0) (Some 5) ''h'' 7 = construct_layout None (Some 5) ''h'' 7"
    using pos by blast
  then show ?thesis by metis
qed

lemma calc_layout_normalized_ok:
  assumes "LayoutConfig_post_init raw = Inr cfg"
  shows "\<exists>r c. calc_layout cfg n = Inr (r, c)"
proof (cases "cfg_nrows cfg")
  case None
  with LayoutConfig_post_init_normalized [OF assms] obtain c
    where "cfg_ncols cfg = Some c" "truthy (Some c)"
    by (cases "cfg_ncols cfg") (auto simp: truthy_def)
  with None show ?thesis
    using calc_layout_cols by blast
next
  case (Some r)
  with LayoutConfig_post_init_normalized [OF assms] have "truthy (Some r)"
    by auto
  with Some show ?thesis
    using calc_layout_rows by blast
qed

subsection \<open>Arithmetic of the grid\<close>

lemma ceil_mult_ge: "(0::int) < r \<Longrightarrow> n \<le> r * (- ((- n) div r))"
proof -
  assume r: "0 < r"
  have "r * ((- n) div r) + (- n) mod r = - n"
    by (rule mult_div_mod_eq)
  moreover have "0 \<le> (- n) mod r"
    using r by (rule pos_mod_sign)
  ultimately have "r * ((- n) div r) \<le> - n"
    by linarith
  then show ?thesis by simp
qed

lemma ceil_nonneg: "(0::int) < r \<Longrightarrow> 0 \<le> n \<Longrightarrow> 0 \<le> - ((- n) div r)"
  by (simp add: div_nonpos_pos_le0)

lemma ceil_pos: "(0::int) < r \<Longrightarrow> 0 < n \<Longrightarrow> 0 < - ((- n) div r)"
  by (simp add: div_neg_pos_less0)

lemma grid_length:
  "length (concat (map (\<lambda>j. map (\<lambda>i. f i j) [0..<r]) [0..<c])) = c * r"
  by (induction c) simp_all

lemma grid_nth:
  "k < c * r \<Longrightarrow> concat (map (\<lambda>j. map (\<lambda>i. f i j) [0..<r]) [0..<c]) ! k = f (k mod r) (k div r)"
proof (induction c)
  case 0
  then show ?case by simp
next
  case (Suc c)
  show ?case
  proof (cases "k < c * r")
    case True
    then show ?thesis
      using Suc.IH by (simp add: nth_append grid_length)
  next
    case False
    with Suc.prems have k: "c * r \<le> k" "k < c * r + r" by simp_all
    then have lt: "k - c * r < r" by simp
    have d: "k div r = c"
      using k by (intro div_nat_eqI) (simp_all add: mult.commute)
    have m: "k mod r = k - c * r"
      using d by (simp add: modulo_nat_def)
    show ?thesis
      using False lt by (simp add: nth_append grid_length d m)
  qed
qed

lemma transposed_index:
  fixes i c r :: nat
  assumes "i < c * r"
  shows "(i mod r) * c + i div r < r * c"
    and "((i mod r) * c + i div r) div c = i mod r"
    and "((i mod r) * c + i div r) mod c = i div r"
proof -
  from assms have r: "0 < r" by (cases r) simp_all
  from assms have d: "i div r < c"
    by (simp add: less_mult_imp_div_less)
  have m: "i mod r < r" using r by simp
  then have "(i mod r) * c + c \<le> r * c"
    by (metis Suc_leI mult_Suc mult_le_mono1 add.commute)
  with d show "(i mod r) * c + i div r < r * c" by linarith
  show "((i mod r) * c + i div r) div c = i mod r"
    using d by simp
  show "((i mod r) * c + i div r) mod c = i div r"
    using d by simp
qed

subsection \<open>The comprehension and the slice\<close>

lemma comprehension_Cons:
  "comprehension f (x # xs) s =
     (fst (f x s) # fst (comprehension f xs (snd (f x s))),
      snd (comprehension f xs (snd (f x s))))"
  by (simp split: prod.splits)

lemma comprehension_length: "length (fst (comprehension f xs s)) = length xs"
  by (induction xs arbitrary: s) (simp_all add: comprehension_Cons del: comprehension.simps(2))

lemma comprehension_state:
  "snd (comprehension f xs s) = fold (\<lambda>x st. snd (f x st)) xs s"
  by (induction xs arbitrary: s) (simp_all add: comprehension_Cons del: comprehension.simps(2))

lemma comprehension_values:
  "(\<And>x st. fst (f x st) = g x) \<Longrightarrow> fst (comprehension f xs s) = map g xs"
  by (induction xs arbitrary: s) (simp_all add: comprehension_Cons del: comprehension.simps(2))

lemma fold_snoc: "fold (\<lambda>x st. st @ [x]) xs acc = acc @ xs"
  by (induction xs arbitrary: acc) simp_all

lemma slice_to_nth:
  "i < length (slice_to xs n) \<Longrightarrow> slice_to xs n ! i = xs ! i \<and> i < length xs"
  by (auto simp: slice_to_def split: if_splits)

lemma slice_to_length:
  "0 \<le> n \<Longrightarrow> n \<le> int (length xs) \<Longrightarrow> int (length (slice_to xs n)) = n"
  by (auto simp: slice_to_def min_def)

subsection \<open>\<^verbatim>\<open>arrange\<close> unfolded\<close>

lemma cells_length: "length (cells self) = nat (nrows self) * nat (ncols self)"
  by (simp add: cells_def)

lemma cells_nth:
  "k < nat (nrows self) * nat (ncols self) \<Longrightarrow>
     cells self ! k = (k div nat (ncols self), k mod nat (ncols self))"
  by (simp add: cells_def)

lemma arrange_Inr_nonneg:
  "arrange self factory s = Inr res \<Longrightarrow> 0 \<le> nrows self \<and> 0 \<le> ncols self"
  by (auto simp: arrange_def split: if_splits)

lemma unravel_index_arange:
  "unravel_index (arange (int r * int c)) (r, c) =
     Inr (map (\<lambda>i. i div c) [0..<r * c], map (\<lambda>i. i mod c) [0..<r * c])"
proof -
  have "arange (int r * int c) = [0..<r * c]"
    by (simp add: arange_def nat_mult_distrib)
  moreover have "\<not> list_ex (\<lambda>i. r * c \<le> i) [0..<r * c]"
    by (simp add: list_ex_iff)
  ultimately show ?thesis
    by (simp add: unravel_index_def)
qed

lemma arrange_unfold:
  assumes "0 \<le> nrows self" "0 \<le> ncols self"
  shows "arrange self factory s =
    (case comprehension (\<lambda>(row, col). factory row col) (cells self) s of
       (regions, s') \<Rightarrow> Inr (assignment self regions, s'))"
proof -
  define r c where "r = nat (nrows self)" and "c = nat (ncols self)"
  have rc: "nrows self = int r" "ncols self = int c"
    using assms by (simp_all add: r_def c_def)
  have z: "zip (map (\<lambda>i. i div c) [0..<r * c]) (map (\<lambda>i. i mod c) [0..<r * c]) = cells self"
    by (simp add: cells_def rc zip_map_map zip_same_conv_map)
  obtain regions s' where cmp:
    "comprehension (\<lambda>(row, col). factory row col) (cells self) s = (regions, s')"
    by (cases "comprehension (\<lambda>(row, col). factory row col) (cells self) s")
  have "length regions = length (cells self)"
    using comprehension_length [of "\<lambda>(row, col). factory row col" "cells self" s] cmp by simp
  then have len: "length regions = r * c"
    by (simp add: cells_def rc)
  show ?thesis
    using assms
    by (simp add: arrange_def Let_def rc unravel_index_arange z cmp reshape_def len
        ndarray_T_def flatten_def assignment_def)
qed

lemma calc_layout_orientation:
  "calc_layout (cfg\<lparr>cfg_orientation := ori\<rparr>) n = calc_layout cfg n"
  by (simp add: calc_layout_def)

lemma RendererLayout_init_shape:
  "RendererLayout_init cfg n = Inr l \<Longrightarrow>
     calc_layout cfg n = Inr (nrows l, ncols l) \<and> layout_nplots l = n \<and>
     orientation l = cfg_orientation cfg \<and> lcfg l = cfg"
  by (auto simp: RendererLayout_init_def split: sum.splits if_splits)

lemma orientation_keeps_shape:
  assumes "RendererLayout_init (cfg\<lparr>cfg_orientation := ''v''\<rparr>) n = Inr lv"
      and "RendererLayout_init (cfg\<lparr>cfg_orientation := ''h''\<rparr>) n = Inr lh"
  shows "nrows lv = nrows lh \<and> ncols lv = ncols lh"
  using RendererLayout_init_shape [OF assms(1)] RendererLayout_init_shape [OF assms(2)]
  by (simp add: calc_layout_orientation)

lemma calc_layout_bounds:
  assumes run: "calc_layout cfg n = Inr (nr, nc)"
    and n: "0 \<le> n"
    and r: "\<forall>k. cfg_nrows cfg = Some k \<longrightarrow> 0 \<le> k"
    and c: "\<forall>k. cfg_ncols cfg = Some k \<longrightarrow> 0 \<le> k"
  shows "n \<le> nr * nc \<and> 0 \<le> nr \<and> 0 \<le> nc \<and> (0 < n \<longrightarrow> 0 < nr \<and> 0 < nc)"
proof (cases "truthy (cfg_nrows cfg)")
  case True
  then obtain k where k: "cfg_nrows cfg = Some k" "k \<noteq> 0"
    by (auto simp: truthy_def split: option.splits)
  with r have pos: "0 < k" by auto
  from run True k have "nr = k" "nc = - ((- n) div k)"
    by (auto simp: calc_layout_def ceildiv_int)
  then show ?thesis
    using ceil_mult_ge [OF pos, of n] ceil_nonneg [OF pos n] ceil_pos [OF pos, of n] pos
    by simp
next
  case False
  with run obtain k where k: "cfg_ncols cfg = Some k"
    by (auto simp: calc_layout_def split: option.splits)
  with run False have nz: "k \<noteq> 0"
    by (auto simp: calc_layout_def ceildiv_def)
  with k c have pos: "0 < k" by auto
  from run False k nz have "nc = k" "nr = - ((- n) div k)"
    by (auto simp: calc_layout_def ceildiv_int)
  then show ?thesis
    using ceil_mult_ge [OF pos, of n] ceil_nonneg [OF pos n] ceil_pos [OF pos, of n] pos
    by (simp add: mult.commute)
qed

lemma LayoutConfig_new_nonneg:
  assumes "LayoutConfig_new r c ori = Inr cfg"
    and "\<forall>k. r = Some k \<longrightarrow> 0 \<le> k" and "\<forall>k. c = Some k \<longrightarrow> 0 \<le> k"
  shows "(\<forall>k. cfg_nrows cfg = Some k \<longrightarrow> 0 \<le> k) \<and> (\<forall>k. cfg_ncols cfg = Some k \<longrightarrow> 0 \<le> k)"
  using assms
  by (auto simp: LayoutConfig_new_def LayoutConfig_post_init_def Let_def split: if_splits)

lemma assignment_length:
  assumes "length regions = nat (nrows self) * nat (ncols self)"
    and "0 \<le> layout_nplots self" and "layout_nplots self \<le> nrows self * ncols self"
    and "0 \<le> nrows self" "0 \<le> ncols self"
  shows "int (length (assignment self regions)) = layout_nplots self"
proof -
  have "int (nat (nrows self) * nat (ncols self)) = nrows self * ncols self"
    using assms(4,5) by simp
  then show ?thesis
    unfolding assignment_def using assms(1-3)
    by (intro slice_to_length) (simp_all add: grid_length mult.commute)
qed

text \<open>
  Claim C2, as amended. For every configuration whose axis counts are not negative (zero
  counts as unset) and every channel count \<open>n \<ge> 0\<close>, the layout that is built has
  \<open>rows * cols \<ge> n\<close>, neither dimension is negative, both are positive when \<open>n > 0\<close>,
  and \<^verbatim>\<open>arrange\<close> returns exactly \<open>n\<close> regions, whatever the factory. With \<open>n = 0\<close> the
  dimension that is computed is \<open>0\<close>, so "positive" cannot be kept for every \<open>n\<close>; the
  counterexample is three rows and no channel.
\<close>

theorem grid_covers_channels:
  assumes run: "construct_layout r c ori n = Inr l"
    and n: "0 \<le> n"
    and r: "\<forall>k. r = Some k \<longrightarrow> 0 \<le> k"
    and c: "\<forall>k. c = Some k \<longrightarrow> 0 \<le> k"
  shows "n \<le> nrows l * ncols l \<and> 0 \<le> nrows l \<and> 0 \<le> ncols l
       \<and> (0 < n \<longrightarrow> 0 < nrows l \<and> 0 < ncols l)
       \<and> (\<exists>regions s'. arrange l factory s = Inr (regions, s') \<and> int (length regions) = n)"
proof -
  from run obtain cfg where cfg: "LayoutConfig_new r c ori = Inr cfg"
    and init: "RendererLayout_init cfg n = Inr l"
    by (auto simp: construct_layout_def split: sum.splits)
  note shape = RendererLayout_init_shape [OF init]
  from LayoutConfig_new_nonneg [OF cfg r c] shape n
  have b: "n \<le> nrows l * ncols l \<and> 0 \<le> nrows l \<and> 0 \<le> ncols l
       \<and> (0 < n \<longrightarrow> 0 < nrows l \<and> 0 < ncols l)"
    by (intro calc_layout_bounds [of cfg n]) simp_all
  then have nonneg: "0 \<le> nrows l" "0 \<le> ncols l" by simp_all
  obtain regions s' where cmp:
    "comprehension (\<lambda>(row, col). factory row col) (cells l) s = (regions, s')"
    by (cases "comprehension (\<lambda>(row, col). factory row col) (cells l) s")
  have "length regions = length (cells l)"
    using comprehension_length [of "\<lambda>(row, col). factory row col" "cells l" s] cmp by simp
  then have "int (length (assignment l regions)) = layout_nplots l"
    using b shape n by (intro assignment_length) (simp_all add: cells_length)
  moreover have "arrange l factory s = Inr (assignment l regions, s')"
    by (simp add: arrange_unfold [OF nonneg] cmp)
  ultimately show ?thesis
    using b shape by simp
qed

theorem grid_covers_channels_witness:
  "construct_layout (Some 3) None ''h'' 7 =
     Inr \<lparr>lcfg = \<lparr>cfg_nrows = Some 3, cfg_ncols = None, cfg_orientation = ''h''\<rparr>,
          layout_nplots = 7, nrows = 3, ncols = 3, orientation = ''h''\<rparr>
   \<and> (7::int) \<le> 3 * 3
   \<and> (\<exists>regions s'.
        arrange \<lparr>lcfg = \<lparr>cfg_nrows = Some 3, cfg_ncols = None, cfg_orientation = ''h''\<rparr>,
                 layout_nplots = 7, nrows = 3, ncols = 3, orientation = ''h''\<rparr>
          (recording Pair) [] = Inr (regions, s') \<and> int (length regions) = 7)"
proof -
  have run: "construct_layout (Some 3) None ''h'' 7 =
     Inr \<lparr>lcfg = \<lparr>cfg_nrows = Some 3, cfg_ncols = None, cfg_orientation = ''h''\<rparr>,
          layout_nplots = 7, nrows = 3, ncols = 3, orientation = ''h''\<rparr>"
    by (simp add: construct_layout_def LayoutConfig_new_def LayoutConfig_post_init_def
        RendererLayout_init_def calc_layout_def truthy_def ceildiv_int VALID_ORIENTATIONS_def)
  have n: "(0::int) \<le> 7" by simp
  have r: "\<forall>k. Some (3::int) = Some k \<longrightarrow> 0 \<le> k" by simp
  have c: "\<forall>k. (None::int option) = Some k \<longrightarrow> 0 \<le> k" by simp
  from grid_covers_channels [OF run n r c, of "recording Pair" "[]"] run
  show ?thesis by simp
qed

theorem grid_cols_zero_counterexample:
  "construct_layout (Some 3) None ''h'' 0 =
     Inr \<lparr>lcfg = \<lparr>cfg_nrows = Some 3, cfg_ncols = None, cfg_orientation = ''h''\<rparr>,
          layout_nplots = 0, nrows = 3, ncols = 0, orientation = ''h''\<rparr>"
  by (simp add: construct_layout_def LayoutConfig_new_def LayoutConfig_post_init_def
      RendererLayout_init_def calc_layout_def truthy_def ceildiv_int VALID_ORIENTATIONS_def)

text \<open>
  Why the amended claim asks for axis counts that are not negative: a negative count is
  taken as it is, and the grid is then smaller than the channel count.
\<close>

lemma negative_axis_count_undershoots:
  "construct_layout (Some (- 3)) None ''h'' 7 =
     Inr \<lparr>lcfg = \<lparr>cfg_nrows = Some (- 3), cfg_ncols = None, cfg_orientation = ''h''\<rparr>,
          layout_nplots = 7, nrows = - 3, ncols = - 2, orientation = ''h''\<rparr>"
  by (simp add: construct_layout_def LayoutConfig_new_def LayoutConfig_post_init_def
      RendererLayout_init_def calc_layout_def truthy_def ceildiv_int VALID_ORIENTATIONS_def)

text \<open>
  Claim C3. \<^verbatim>\<open>arrange\<close> calls the region factory once for each cell of the whole grid,
  in row-major order (the \<open>i\<close>-th call is for row \<open>i div cols\<close>, column \<open>i mod cols\<close>):
  the state the factory leaves is the fold of its effect over these \<open>rows * cols\<close> cells,
  and a factory that writes its calls down has written exactly this list. The list does
  not depend on the orientation or on the channel count, so cells with an index at or
  beyond the channel count are created as well.
\<close>

theorem arrange_calls_every_cell:
  assumes "0 \<le> nrows self" "0 \<le> ncols self"
  shows "(\<forall>regions s'. arrange self factory s = Inr (regions, s') \<longrightarrow>
           s' = fold (\<lambda>(row, col) st. snd (factory row col st))
                  (map (\<lambda>i. (i div nat (ncols self), i mod nat (ncols self)))
                       [0..<nat (nrows self) * nat (ncols self)]) s)
       \<and> (\<forall>ori n. \<exists>regions.
           arrange (self\<lparr>orientation := ori, layout_nplots := n\<rparr>) (recording f) [] =
             Inr (regions, map (\<lambda>i. (i div nat (ncols self), i mod nat (ncols self)))
                               [0..<nat (nrows self) * nat (ncols self)]))"
proof (intro conjI allI impI)
  fix regions s'
  assume "arrange self factory s = Inr (regions, s')"
  then have "s' = snd (comprehension (\<lambda>(row, col). factory row col) (cells self) s)"
    by (simp add: arrange_unfold [OF assms] split: prod.splits)
  also have "\<dots> = fold (\<lambda>x st. snd ((\<lambda>(row, col). factory row col) x st)) (cells self) s"
    by (rule comprehension_state)
  also have "(\<lambda>x st. snd ((\<lambda>(row, col). factory row col) x st))
      = (\<lambda>(row, col) st. snd (factory row col st))"
    by (simp add: fun_eq_iff)
  finally show "s' = fold (\<lambda>(row, col) st. snd (factory row col st))
                  (map (\<lambda>i. (i div nat (ncols self), i mod nat (ncols self)))
                       [0..<nat (nrows self) * nat (ncols self)]) s"
    by (simp add: cells_def)
next
  fix ori n
  let ?self = "self\<lparr>orientation := ori, layout_nplots := n\<rparr>"
  have nonneg: "0 \<le> nrows ?self" "0 \<le> ncols ?self"
    using assms by simp_all
  have c: "cells ?self = cells self"
    by (simp add: cells_def)
  have "snd (comprehension (\<lambda>(row, col). recording f row col) (cells self) [])
      = fold (\<lambda>x st. snd ((\<lambda>(row, col). recording f row col) x st)) (cells self) []"
    by (rule comprehension_state)
  also have "(\<lambda>x st. snd ((\<lambda>(row, col). recording f row col) x st)) = (\<lambda>x st. st @ [x])"
    by (simp add: fun_eq_iff recording_def)
  finally have "snd (comprehension (\<lambda>(row, col). recording f row col) (cells self) []) = cells self"
    by (simp add: fold_snoc)
  then obtain regions where
    "comprehension (\<lambda>(row, col). recording f row col) (cells self) [] = (regions, cells self)"
    by (cases "comprehension (\<lambda>(row, col). recording f row col) (cells self) []") simp
  then have "arrange ?self (recording f) [] = Inr (assignment ?self regions, cells self)"
    by (simp add: arrange_unfold [OF nonneg] c)
  then show "\<exists>regions.
           arrange ?self (recording f) [] =
             Inr (regions, map (\<lambda>i. (i div nat (ncols self), i mod nat (ncols self)))
                               [0..<nat (nrows self) * nat (ncols self)])"
    by (simp add: cells_def)
qed

theorem arrange_calls_every_cell_witness:
  "(\<exists>regions. arrange ((grid23 ''h'')\<lparr>orientation := ''v'', layout_nplots := 5\<rparr>) (recording Pair) [] =
      Inr (regions, [(0, 0), (0, 1), (0, 2), (1, 0), (1, 1), (1, 2)]))
   \<and> (\<exists>regions. arrange ((grid23 ''h'')\<lparr>orientation := ''h'', layout_nplots := 2\<rparr>) (recording Pair) [] =
      Inr (regions, [(0, 0), (0, 1), (0, 2), (1, 0), (1, 1), (1, 2)]))"
proof -
  have a: "0 \<le> nrows (grid23 ''h'')" and b: "0 \<le> ncols (grid23 ''h'')"
    by (simp_all add: grid23_def)
  have cells: "map (\<lambda>i. (i div nat (ncols (grid23 ''h'')), i mod nat (ncols (grid23 ''h''))))
                 [0..<nat (nrows (grid23 ''h'')) * nat (ncols (grid23 ''h''))]
      = [(0, 0), (0, 1), (0, 2), (1, 0), (1, 1), (1, 2)]"
    by code_simp
  note calls = arrange_calls_every_cell [OF a b, where f = Pair, THEN conjunct2, unfolded cells]
  from calls [rule_format, where ori = "''v''" and n = 5]
    calls [rule_format, where ori = "''h''" and n = 2]
  show ?thesis
    by (rule conjI)
qed

text \<open>The two orientations on the grid of the examples, evaluated.\<close>

lemma arrange_grid23_v:
  "arrange (grid23 ''v'') (recording Pair) [] =
    Inr ([(0, 0), (1, 0), (0, 1), (1, 1), (0, 2)], [(0, 0), (0, 1), (0, 2), (1, 0), (1, 1), (1, 2)])"
  by code_simp

lemma arrange_grid23_h:
  "arrange (grid23 ''h'') (recording Pair) [] =
    Inr ([(0, 0), (0, 1), (0, 2), (1, 0), (1, 1)], [(0, 0), (0, 1), (0, 2), (1, 0), (1, 1), (1, 2)])"
  by code_simp

text \<open>
  Claim C4. For a factory whose result depends on the cell only: with orientation
  \<^verbatim>\<open>'v'\<close> channel \<open>i\<close> gets the region of cell \<open>(i mod rows, i div rows)\<close>, the
  column-major order; with \<^verbatim>\<open>'h'\<close> it gets the region of cell
  \<open>(i div cols, i mod cols)\<close>, the row-major order. The rows and columns of a layout are
  the same for both orientations.
\<close>

theorem arrange_assignment:
  assumes pure: "\<forall>row col st. fst (factory row col st) = f row col"
    and run: "arrange self factory s = Inr (regions, s')"
    and i: "i < length regions"
  shows "(orientation self = ''v'' \<longrightarrow>
            regions ! i = f (i mod nat (nrows self)) (i div nat (nrows self)))
       \<and> (orientation self = ''h'' \<longrightarrow>
            regions ! i = f (i div nat (ncols self)) (i mod nat (ncols self)))
       \<and> (\<forall>lv lh. RendererLayout_init (cfg\<lparr>cfg_orientation := ''v''\<rparr>) n = Inr lv \<longrightarrow>
                   RendererLayout_init (cfg\<lparr>cfg_orientation := ''h''\<rparr>) n = Inr lh \<longrightarrow>
                   nrows lv = nrows lh \<and> ncols lv = ncols lh)"
proof -
  define r c where "r = nat (nrows self)" and "c = nat (ncols self)"
  have nonneg: "0 \<le> nrows self" "0 \<le> ncols self"
    using arrange_Inr_nonneg [OF run] by simp_all
  define created where
    "created = fst (comprehension (\<lambda>(row, col). factory row col) (cells self) s)"
  have "\<And>x st. fst ((\<lambda>(row, col). factory row col) x st) = (\<lambda>(row, col). f row col) x"
    using pure by (simp add: split_beta)
  then have created: "created = map (\<lambda>(row, col). f row col) (cells self)"
    unfolding created_def by (rule comprehension_values)
  have created_nth: "created ! k = f (k div c) (k mod c)" if "k < r * c" for k
    using that by (simp add: created cells_length cells_nth r_def c_def)
  have len: "length created = r * c"
    by (simp add: created cells_length r_def c_def)
  from run have regions: "regions = assignment self created"
    by (simp add: arrange_unfold [OF nonneg] created_def split: prod.splits)
  have shape: "\<forall>lv lh. RendererLayout_init (cfg\<lparr>cfg_orientation := ''v''\<rparr>) n = Inr lv \<longrightarrow>
                   RendererLayout_init (cfg\<lparr>cfg_orientation := ''h''\<rparr>) n = Inr lh \<longrightarrow>
                   nrows lv = nrows lh \<and> ncols lv = ncols lh"
    using orientation_keeps_shape by blast
  have "orientation self = ''v'' \<longrightarrow>
            regions ! i = f (i mod nat (nrows self)) (i div nat (nrows self))"
  proof
    assume v: "orientation self = ''v''"
    let ?t = "concat (map (\<lambda>j. map (\<lambda>i. created ! (i * c + j)) [0..<r]) [0..<c])"
    from regions v have "regions = slice_to ?t (layout_nplots self)"
      by (simp add: assignment_def r_def c_def)
    with i have "regions ! i = ?t ! i" "i < length ?t"
      using slice_to_nth by blast+
    then have lt: "i < c * r" and eq: "regions ! i = ?t ! i"
      by (simp_all add: grid_length)
    have "?t ! i = created ! ((i mod r) * c + i div r)"
      using lt by (rule grid_nth)
    also have "\<dots> = f (i mod r) (i div r)"
      using transposed_index [OF lt] by (simp add: created_nth)
    finally show "regions ! i = f (i mod nat (nrows self)) (i div nat (nrows self))"
      using eq by (simp add: r_def)
  qed
  moreover have "orientation self = ''h'' \<longrightarrow>
            regions ! i = f (i div nat (ncols self)) (i mod nat (ncols self))"
  proof
    assume h: "orientation self = ''h''"
    from regions h have "regions = slice_to created (layout_nplots self)"
      by (simp add: assignment_def)
    with i have "regions ! i = created ! i" "i < length created"
      using slice_to_nth by blast+
    then show "regions ! i = f (i div nat (ncols self)) (i mod nat (ncols self))"
      by (simp add: len created_nth c_def)
  qed
  ultimately show ?thesis
    using shape by blast
qed

theorem arrange_assignment_witness:
  "arrange (grid23 ''v'') (recording Pair) [] =
     Inr ([(0, 0), (1, 0), (0, 1), (1, 1), (0, 2)], [(0, 0), (0, 1), (0, 2), (1, 0), (1, 1), (1, 2)])
   \<and> [(0, 0), (1, 0), (0, 1), (1, 1), (0::nat, 2::nat)] ! 3 = (1, 1)
   \<and> arrange (grid23 ''h'') (recording Pair) [] =
     Inr ([(0, 0), (0, 1), (0, 2), (1, 0), (1, 1)], [(0, 0), (0, 1), (0, 2), (1, 0), (1, 1), (1, 2)])
   \<and> [(0, 0), (0, 1), (0, 2), (1, 0), (1::nat, 1::nat)] ! 3 = (1, 0)"
proof -
  have pure: "\<forall>row col st. fst (recording Pair row col st) = (row, col)"
    by (simp add: recording_def)
  have i: "3 < length [(0, 0), (1, 0), (0, 1), (1, 1), (0::nat, 2::nat)]"
    and j: "3 < length [(0, 0), (0, 1), (0, 2), (1, 0), (1::nat, 1::nat)]"
    by simp_all
  from arrange_assignment [OF pure arrange_grid23_v i] arrange_assignment [OF pure arrange_grid23_h j]
    arrange_grid23_v arrange_grid23_h
  show ?thesis
    by (simp add: grid23_def)
qed

section \<open>Properties of the renderer\<close>

subsection \<open>The Axes of the channels\<close>

lemma slice_to_take: "\<exists>m. slice_to xs n = take m xs"
  by (auto simp: slice_to_def)

lemma transposed_index_inj:
  fixes k k' c r :: nat
  assumes "k < c * r" "k' < c * r"
    and "(k mod r) * c + k div r = (k' mod r) * c + k' div r"
  shows "k = k'"
proof -
  from transposed_index(2,3) [OF assms(1)] transposed_index(2,3) [OF assms(2)] assms(3)
  have "k mod r = k' mod r" "k div r = k' div r"
    by simp_all
  then have "k div r * r + k mod r = k' div r * r + k' mod r"
    by simp
  then show ?thesis
    by (simp only: div_mult_mod_eq)
qed

lemma transposed_addresses:
  fixes r c :: nat
  defines "t \<equiv> concat (map (\<lambda>j. map (\<lambda>i. [0..<r * c] ! (i * c + j)) [0..<r]) [0..<c])"
  shows "distinct t \<and> (\<forall>x\<in>set t. x < r * c) \<and> length t = r * c"
proof -
  have len: "length t = c * r"
    unfolding t_def by (rule grid_length)
  have nth: "t ! k = (k mod r) * c + k div r" if "k < c * r" for k
  proof -
    have "t ! k = [0..<r * c] ! ((k mod r) * c + k div r)"
      unfolding t_def using that by (rule grid_nth)
    then show ?thesis
      using transposed_index(1) [OF that] by simp
  qed
  have "distinct t"
    unfolding distinct_conv_nth len
  proof (intro allI impI)
    fix i j assume ij: "i < c * r" "j < c * r" "i \<noteq> j"
    show "t ! i \<noteq> t ! j"
    proof
      assume "t ! i = t ! j"
      then have "(i mod r) * c + i div r = (j mod r) * c + j div r"
        using nth [OF ij(1)] nth [OF ij(2)] by simp
      with ij show False
        using transposed_index_inj by blast
    qed
  qed
  moreover have "\<forall>x\<in>set t. x < r * c"
  proof
    fix x assume "x \<in> set t"
    then obtain k where k: "k < c * r" "t ! k = x"
      unfolding in_set_conv_nth len by blast
    with nth [OF k(1)] transposed_index(1) [OF k(1)] show "x < r * c"
      by simp
  qed
  ultimately show ?thesis
    using len by (simp add: mult.commute)
qed

lemma assignment_addresses:
  assumes "0 \<le> nrows l" "0 \<le> ncols l"
  shows "distinct (assignment l [0..<nat (nrows l) * nat (ncols l)])
       \<and> (\<forall>x\<in>set (assignment l [0..<nat (nrows l) * nat (ncols l)]). x < nat (nrows l) * nat (ncols l))"
proof -
  let ?N = "nat (nrows l) * nat (ncols l)"
  let ?t = "concat (map (\<lambda>j. map (\<lambda>i. [0..<?N] ! (i * nat (ncols l) + j))
                           [0..<nat (nrows l)]) [0..<nat (ncols l)])"
  let ?xs = "if orientation l = ''v'' then ?t else [0..<?N]"
  have t: "distinct ?t \<and> (\<forall>x\<in>set ?t. x < ?N)"
    using transposed_addresses [of "nat (nrows l)" "nat (ncols l)"] by blast
  have xs: "distinct ?xs" "\<forall>x\<in>set ?xs. x < ?N"
    using t by (simp_all split: if_splits)
  obtain m where m: "assignment l [0..<?N] = take m ?xs"
    unfolding assignment_def using slice_to_take by blast
  have "distinct (take m ?xs)"
    using xs(1) by (rule distinct_take)
  moreover have "\<forall>x\<in>set (take m ?xs). x < ?N"
    using xs(2) set_take_subset [of m ?xs] by blast
  ultimately show ?thesis
    unfolding m by blast
qed

lemma arrange_addresses:
  assumes "0 \<le> nrows l" "0 \<le> ncols l"
  shows "arrange l (\<lambda>row col st. (row * nat (ncols l) + col, st)) () =
           Inr (assignment l [0..<nat (nrows l) * nat (ncols l)], ())"
proof -
  let ?f = "\<lambda>(row, col) st. (row * nat (ncols l) + col, st :: unit)"
  have "fst (comprehension ?f (cells l) ()) = map (\<lambda>(row, col). row * nat (ncols l) + col) (cells l)"
    by (rule comprehension_values) (simp add: split_beta)
  also have "\<dots> = map (\<lambda>i. i) [0..<nat (nrows l) * nat (ncols l)]"
    unfolding cells_def by (simp add: comp_def)
  finally have "comprehension ?f (cells l) () = ([0..<nat (nrows l) * nat (ncols l)], ())"
    by (cases "comprehension ?f (cells l) ()") simp
  then show ?thesis
    by (simp add: arrange_unfold [OF assms])
qed

lemma calc_layout_cover:
  assumes run: "calc_layout lc n = Inr (nr, nc)" and nonneg: "0 \<le> nr" "0 \<le> nc"
  shows "n \<le> nr * nc \<and> (n < 0 \<longrightarrow> nr * nc = 0)"
proof -
  have core: "n \<le> k * (- ((- n) div k)) \<and> (n < 0 \<longrightarrow> k * (- ((- n) div k)) = 0)"
    if k: "k \<noteq> 0" "0 \<le> k" "0 \<le> - ((- n) div k)" for k
  proof -
    from k have pos: "0 < k" by simp
    have "n < 0 \<longrightarrow> - ((- n) div k) \<le> 0"
      using pos by (simp add: pos_imp_zdiv_nonneg_iff)
    with k(3) ceil_mult_ge [OF pos, of n] show ?thesis
      by auto
  qed
  show ?thesis
  proof (cases "truthy (cfg_nrows lc)")
    case True
    then obtain k where k: "cfg_nrows lc = Some k" "k \<noteq> 0"
      by (auto simp: truthy_def split: option.splits)
    from run True k have "nr = k" "nc = - ((- n) div k)"
      by (auto simp: calc_layout_def ceildiv_int)
    with core [of k] k nonneg show ?thesis by simp
  next
    case False
    with run obtain k where k: "cfg_ncols lc = Some k"
      by (auto simp: calc_layout_def split: option.splits)
    with run False have nz: "k \<noteq> 0"
      by (auto simp: calc_layout_def ceildiv_def)
    from run False k nz have "nc = k" "nr = - ((- n) div k)"
      by (auto simp: calc_layout_def ceildiv_int)
    with core [of k] nz nonneg show ?thesis by (simp add: mult.commute)
  qed
qed

lemma assignment_length_nat:
  assumes len: "length regions = nat (nrows l) * nat (ncols l)"
    and nonneg: "0 \<le> nrows l" "0 \<le> ncols l"
    and cover: "layout_nplots l \<le> nrows l * ncols l"
      "layout_nplots l < 0 \<longrightarrow> nrows l * ncols l = 0"
  shows "length (assignment l regions) = nat (layout_nplots l)"
proof -
  have N: "int (nat (nrows l) * nat (ncols l)) = nrows l * ncols l"
    using nonneg by simp
  let ?xs = "if orientation l = ''v''
               then concat (map (\<lambda>j. map (\<lambda>i. regions ! (i * nat (ncols l) + j))
                           [0..<nat (nrows l)]) [0..<nat (ncols l)])
               else regions"
  have "length ?xs = nat (nrows l) * nat (ncols l)"
    using len by (simp add: grid_length mult.commute)
  then have "int (length ?xs) = nrows l * ncols l"
    using N by simp
  then have xs: "int (length ?xs) = nrows l * ncols l" .
  show ?thesis
  proof (cases "0 \<le> layout_nplots l")
    case True
    then have "slice_to ?xs (layout_nplots l) = take (nat (layout_nplots l)) ?xs"
      by (simp add: slice_to_def)
    moreover have "nat (layout_nplots l) \<le> length ?xs"
      using xs cover(1) True by linarith
    ultimately show ?thesis
      unfolding assignment_def by simp
  next
    case False
    then have "nrows l * ncols l = 0" using cover(2) by simp
    with xs have "?xs = []" by simp
    then have "slice_to ?xs (layout_nplots l) = []"
      by (simp add: slice_to_def)
    then show ?thesis
      unfolding assignment_def using False by simp
  qed
qed

lemma MatplotlibRenderer_init_inv:
  assumes "MatplotlibRenderer_init B rcfg lc n = Inr self"
  shows "renderer_inv self \<and> lines self = None \<and> nplots self = n \<and> renderer_cfg self = rcfg
       \<and> line_colors self = replicate (nat n) None"
proof -
  from assms obtain l where l: "RendererLayout_init lc n = Inr l"
    and sl: "set_layout B \<lparr>renderer_cfg = rcfg, nplots = n, layout = l, fig = None, axes = None,
                      lines = None, line_colors = replicate (nat n) None\<rparr> = Inr self"
    by (auto simp: MatplotlibRenderer_init_def split: sum.splits)
  note shape = RendererLayout_init_shape [OF l]
  from sl have nonneg: "0 \<le> nrows l" "0 \<le> ncols l"
    by (auto simp: set_layout_def subplots_def split: if_splits)
  from calc_layout_cover [of lc n "nrows l" "ncols l"] nonneg shape
  have cover: "layout_nplots l \<le> nrows l * ncols l" "layout_nplots l < 0 \<longrightarrow> nrows l * ncols l = 0"
    by simp_all
  let ?a = "assignment l [0..<nat (nrows l) * nat (ncols l)]"
  have "length ?a = nat (layout_nplots l)"
    by (rule assignment_length_nat [OF _ nonneg cover]) simp
  then have len: "length ?a = nat n"
    using shape by simp
  let ?self = "\<lparr>renderer_cfg = rcfg, nplots = n, layout = l,
      fig = Some \<lparr>facecolor = None,
                  fig_axes = map set_axis_off (replicate (nat (nrows l) * nat (ncols l))
                               \<lparr>axis_on = True, xlim = None, ylim = None\<rparr>),
                  fig_lines = [],
                  cached_x = [],
                  canvas = \<lparr>canvas_class = new_canvas_class B,
                            get_width_height = set_size B DPI (width rcfg) (height rcfg),
                            canvas_renderer = None\<rparr>\<rparr>,
      axes = Some ?a, lines = None, line_colors = replicate (nat n) None\<rparr>"
  have sub: "subplots B (nrows l) (ncols l) =
      Inr \<lparr>facecolor = None,
               fig_axes = replicate (nat (nrows l) * nat (ncols l)) \<lparr>axis_on = True, xlim = None, ylim = None\<rparr>,
               fig_lines = [], cached_x = [],
               canvas = \<lparr>canvas_class = new_canvas_class B, get_width_height = new_width_height B,
                         canvas_renderer = None\<rparr>\<rparr>"
    using nonneg by (simp add: subplots_def)
  have "set_layout B \<lparr>renderer_cfg = rcfg, nplots = n, layout = l, fig = None, axes = None,
                      lines = None, line_colors = replicate (nat n) None\<rparr> = Inr ?self"
    by (simp add: set_layout_def sub arrange_addresses [OF nonneg])
  with sl have self: "self = ?self"
    by simp
  have "renderer_inv ?self"
    using assignment_addresses [OF nonneg] len
    by (simp add: renderer_inv_def kept_x_def list_all_iff)
  then show ?thesis
    unfolding self by simp
qed

subsection \<open>Errors of the construction\<close>

lemma set_layout_error:
  assumes "fig self = None" "set_layout B self = Inl e"
  shows "e = Negative_shape"
proof (cases "nrows (layout self) < 0 \<or> ncols (layout self) < 0")
  case True
  with assms show ?thesis
    by (simp add: set_layout_def subplots_def)
next
  case False
  then have nonneg: "0 \<le> nrows (layout self)" "0 \<le> ncols (layout self)"
    by simp_all
  from assms(1) False have "\<exists>self'. set_layout B self = Inr self'"
    by (simp add: set_layout_def subplots_def arrange_addresses [OF nonneg])
  with assms(2) show ?thesis
    by simp
qed

lemma MatplotlibRenderer_init_error:
  assumes "MatplotlibRenderer_init B rcfg lc n = Inl e"
  shows "RendererLayout_init lc n = Inl e \<or> e = Negative_shape"
proof (cases "RendererLayout_init lc n")
  case (Inl e')
  with assms show ?thesis
    by (simp add: MatplotlibRenderer_init_def)
next
  case (Inr l)
  with assms have "set_layout B \<lparr>renderer_cfg = rcfg, nplots = n, layout = l, fig = None,
      axes = None, lines = None, line_colors = replicate (nat n) None\<rparr> = Inl e"
    by (simp add: MatplotlibRenderer_init_def)
  then have "e = Negative_shape"
    by (intro set_layout_error [of _ B]) simp_all
  then show ?thesis ..
qed

lemma construct_renderer_error:
  assumes "construct_renderer B rcfg r c ori n = Inl e"
  shows "construct_layout r c ori n = Inl e \<or> e = Negative_shape"
proof (cases "LayoutConfig_new r c ori")
  case (Inl e')
  with assms show ?thesis
    by (simp add: construct_renderer_def construct_layout_def)
next
  case (Inr cfg)
  with assms MatplotlibRenderer_init_error [of B rcfg cfg n e] show ?thesis
    by (simp add: construct_renderer_def construct_layout_def)
qed

lemma construct_renderer_layout_error:
  assumes "construct_layout r c ori n = Inl e"
  shows "construct_renderer B rcfg r c ori n = Inl e"
proof (cases "LayoutConfig_new r c ori")
  case (Inl e')
  with assms show ?thesis
    by (simp add: construct_renderer_def construct_layout_def)
next
  case (Inr cfg)
  with assms show ?thesis
    by (simp add: construct_renderer_def construct_layout_def MatplotlibRenderer_init_def)
qed

text \<open>
  Claim C9. Building the layout (the configuration's constructor, then
  \<^verbatim>\<open>RendererLayout.__init__\<close>) fails exactly when both axis counts are set or the
  orientation is neither \<^verbatim>\<open>'h'\<close> nor \<^verbatim>\<open>'v'\<close>, and every such failure is an
  InvalidConfig. A count is set when it is neither \<^verbatim>\<open>None\<close> nor zero, as the code tests
  it. With both set the configuration's constructor raises; with neither set the column
  count becomes one and nothing is raised for the axis counts; an unknown orientation is
  raised by \<^verbatim>\<open>RendererLayout.__init__\<close>. Building the whole renderer fails with an
  InvalidConfig in exactly the same cases. The source has no retry anywhere: an error is
  the result of the call.
\<close>

theorem construction_fails_iff_unresolvable:
  "isl (construct_layout r c ori n) = ((truthy r \<and> truthy c) \<or> ori \<notin> set VALID_ORIENTATIONS)
   \<and> (\<forall>e. construct_layout r c ori n = Inl e \<longrightarrow> taxonomy e = InvalidConfig)
   \<and> (truthy r \<and> truthy c \<longrightarrow> LayoutConfig_new r c ori = Inl Both_nrows_and_ncols)
   \<and> (\<not> truthy r \<and> \<not> truthy c \<longrightarrow>
        LayoutConfig_new r c ori = Inr \<lparr>cfg_nrows = None, cfg_ncols = Some 1, cfg_orientation = ori\<rparr>)
   \<and> (\<not> (truthy r \<and> truthy c) \<and> ori \<notin> set VALID_ORIENTATIONS \<longrightarrow>
        construct_layout r c ori n = Inl (Invalid_orientation ori))
   \<and> (\<exists>e. construct_renderer B rcfg r c ori n = Inl e \<and> taxonomy e = InvalidConfig)
       = ((truthy r \<and> truthy c) \<or> ori \<notin> set VALID_ORIENTATIONS)"
proof -
  have layout: "isl (construct_layout r c ori n) = ((truthy r \<and> truthy c) \<or> ori \<notin> set VALID_ORIENTATIONS)
   \<and> (\<forall>e. construct_layout r c ori n = Inl e \<longrightarrow> taxonomy e = InvalidConfig)
   \<and> (truthy r \<and> truthy c \<longrightarrow> LayoutConfig_new r c ori = Inl Both_nrows_and_ncols)
   \<and> (\<not> truthy r \<and> \<not> truthy c \<longrightarrow>
        LayoutConfig_new r c ori = Inr \<lparr>cfg_nrows = None, cfg_ncols = Some 1, cfg_orientation = ori\<rparr>)
   \<and> (\<not> (truthy r \<and> truthy c) \<and> ori \<notin> set VALID_ORIENTATIONS \<longrightarrow>
        construct_layout r c ori n = Inl (Invalid_orientation ori))"
  proof (cases "truthy r \<and> truthy c")
    case True
    then have "LayoutConfig_new r c ori = Inl Both_nrows_and_ncols"
      by (auto simp: LayoutConfig_new_def LayoutConfig_post_init_def truthy_def split: option.splits)
    with True show ?thesis
      by (simp add: construct_layout_def)
  next
    case False
    have "\<exists>cfg. LayoutConfig_new r c ori = Inr cfg \<and> cfg_orientation cfg = ori \<and>
      (\<not> truthy r \<and> \<not> truthy c \<longrightarrow>
        cfg = \<lparr>cfg_nrows = None, cfg_ncols = Some 1, cfg_orientation = ori\<rparr>)"
      using False
      by (cases "truthy r"; cases "truthy c")
         (simp_all add: LayoutConfig_new_def LayoutConfig_post_init_def truthy_def)
    then obtain cfg where cfg: "LayoutConfig_new r c ori = Inr cfg" "cfg_orientation cfg = ori"
      and dflt: "\<not> truthy r \<and> \<not> truthy c \<longrightarrow>
        cfg = \<lparr>cfg_nrows = None, cfg_ncols = Some 1, cfg_orientation = ori\<rparr>"
      by blast
    from cfg(1) obtain r' c' where rc: "calc_layout cfg n = Inr (r', c')"
      unfolding LayoutConfig_new_def using calc_layout_normalized_ok by blast
    show ?thesis
      using False cfg dflt rc
      by (auto simp: construct_layout_def RendererLayout_init_def)
  qed
  have "(\<exists>e. construct_renderer B rcfg r c ori n = Inl e \<and> taxonomy e = InvalidConfig)
       = ((truthy r \<and> truthy c) \<or> ori \<notin> set VALID_ORIENTATIONS)"
  proof
    assume "\<exists>e. construct_renderer B rcfg r c ori n = Inl e \<and> taxonomy e = InvalidConfig"
    then obtain e where e: "construct_renderer B rcfg r c ori n = Inl e" "taxonomy e = InvalidConfig"
      by blast
    from construct_renderer_error [OF e(1)] e(2) have "construct_layout r c ori n = Inl e"
      by auto
    then have "isl (construct_layout r c ori n)"
      by simp
    with layout show "(truthy r \<and> truthy c) \<or> ori \<notin> set VALID_ORIENTATIONS"
      by blast
  next
    assume "(truthy r \<and> truthy c) \<or> ori \<notin> set VALID_ORIENTATIONS"
    with layout have "isl (construct_layout r c ori n)"
      by blast
    then obtain e where e: "construct_layout r c ori n = Inl e"
      by (cases "construct_layout r c ori n") simp_all
    with layout have "taxonomy e = InvalidConfig"
      by blast
    with construct_renderer_layout_error [OF e, of B rcfg]
    show "\<exists>e. construct_renderer B rcfg r c ori n = Inl e \<and> taxonomy e = InvalidConfig"
      by blast
  qed
  with layout show ?thesis
    by blast
qed

theorem construction_fails_iff_unresolvable_witness:
  "isl (construct_layout (Some 2) (Some 3) ''h'' 5)
   \<and> LayoutConfig_new (Some 2) (Some 3) ''h'' = Inl Both_nrows_and_ncols
   \<and> LayoutConfig_new None None ''v''
       = Inr \<lparr>cfg_nrows = None, cfg_ncols = Some 1, cfg_orientation = ''v''\<rparr>
   \<and> \<not> isl (construct_layout None None ''v'' 5)
   \<and> construct_layout (Some 2) None ''x'' 5 = Inl (Invalid_orientation ''x'')
   \<and> (\<exists>e. construct_renderer demo_backend demo_cfg (Some 2) (Some 3) ''h'' 5 = Inl e
          \<and> taxonomy e = InvalidConfig)"
  using construction_fails_iff_unresolvable [of "Some 2" "Some 3" "''h''" 5 demo_backend demo_cfg]
    construction_fails_iff_unresolvable [of None None "''v''" 5 demo_backend demo_cfg]
    construction_fails_iff_unresolvable [of "Some 2" None "''x''" 5 demo_backend demo_cfg]
  by (simp add: truthy_def VALID_ORIENTATIONS_def)

subsection \<open>The iterations of \<^verbatim>\<open>render_frame\<close>\<close>

lemma plot_lines_step:
  assumes "idx < length colors" "idx < length a" "a ! idx < length (fig_axes fg)"
  shows "plot_lines rcfg colors (Some a) idx (data # datas) (fg, ls) =
         plot_lines rcfg colors (Some a) (Suc idx) datas
           (fg\<lparr>fig_axes := (fig_axes fg)[a ! idx := first_limits data (fig_axes fg ! (a ! idx))],
               fig_lines := fig_lines fg @ [first_line rcfg colors a idx data],
               cached_x := cached_x fg @ [[0..<length data]]\<rparr>,
            ls @ [length (fig_lines fg)])"
  using assms
  by (simp add: set_xlim_def set_ylim_def plot_def first_line_def first_limits_def coalesce_def
      Let_def)

lemma upt_shift_Cons: "L # [Suc L..<Suc (L + n)] = [L..<Suc (L + n)]"
  by (rule upt_conv_Cons [symmetric]) simp

lemma distinct_nth_neq:
  "distinct a \<Longrightarrow> i < length a \<Longrightarrow> j < length a \<Longrightarrow> i \<noteq> j \<Longrightarrow> a ! i \<noteq> a ! j"
  by (simp add: nth_eq_iff_index_eq)

lemma plot_lines_ok:
  assumes "idx + length datas \<le> length colors" "idx + length datas \<le> length a"
    and "distinct a" "\<forall>x\<in>set a. x < length (fig_axes fg)"
  shows "\<exists>fg'. plot_lines rcfg colors (Some a) idx datas (fg, ls) =
                  Inr (fg', ls @ [length (fig_lines fg)..<length (fig_lines fg) + length datas])
      \<and> facecolor fg' = facecolor fg \<and> canvas fg' = canvas fg
      \<and> fig_lines fg' = fig_lines fg @
            map (\<lambda>k. first_line rcfg colors a (idx + k) (datas ! k)) [0..<length datas]
      \<and> cached_x fg' = cached_x fg @ map (\<lambda>k. [0..<length (datas ! k)]) [0..<length datas]
      \<and> length (fig_axes fg') = length (fig_axes fg)
      \<and> (\<forall>k<length datas. fig_axes fg' ! (a ! (idx + k)) =
            first_limits (datas ! k) (fig_axes fg ! (a ! (idx + k))))
      \<and> (\<forall>x. x \<notin> (\<lambda>j. a ! j) ` {idx..<idx + length datas} \<longrightarrow> fig_axes fg' ! x = fig_axes fg ! x)"
  using assms
proof (induction datas arbitrary: idx fg ls)
  case Nil
  then show ?case by simp
next
  case (Cons data datas)
  let ?fg3 = "fg\<lparr>fig_axes := (fig_axes fg)[a ! idx := first_limits data (fig_axes fg ! (a ! idx))],
               fig_lines := fig_lines fg @ [first_line rcfg colors a idx data],
               cached_x := cached_x fg @ [[0..<length data]]\<rparr>"
  let ?L = "length (fig_lines fg)"
  from Cons.prems have idx: "idx < length colors" "idx < length a"
    by simp_all
  with Cons.prems(4) have ax: "a ! idx < length (fig_axes fg)"
    by simp
  have step: "plot_lines rcfg colors (Some a) idx (data # datas) (fg, ls) =
         plot_lines rcfg colors (Some a) (Suc idx) datas (?fg3, ls @ [?L])"
    by (rule plot_lines_step [OF idx ax])
  have "\<exists>fg'. plot_lines rcfg colors (Some a) (Suc idx) datas (?fg3, ls @ [?L]) =
                  Inr (fg', (ls @ [?L]) @ [length (fig_lines ?fg3)..<length (fig_lines ?fg3) + length datas])
      \<and> facecolor fg' = facecolor ?fg3 \<and> canvas fg' = canvas ?fg3
      \<and> fig_lines fg' = fig_lines ?fg3 @
            map (\<lambda>k. first_line rcfg colors a (Suc idx + k) (datas ! k)) [0..<length datas]
      \<and> cached_x fg' = cached_x ?fg3 @ map (\<lambda>k. [0..<length (datas ! k)]) [0..<length datas]
      \<and> length (fig_axes fg') = length (fig_axes ?fg3)
      \<and> (\<forall>k<length datas. fig_axes fg' ! (a ! (Suc idx + k)) =
            first_limits (datas ! k) (fig_axes ?fg3 ! (a ! (Suc idx + k))))
      \<and> (\<forall>x. x \<notin> (\<lambda>j. a ! j) ` {Suc idx..<Suc idx + length datas} \<longrightarrow>
               fig_axes fg' ! x = fig_axes ?fg3 ! x)"
    using Cons.prems by (intro Cons.IH) simp_all
  then obtain fg' where
    run: "plot_lines rcfg colors (Some a) (Suc idx) datas (?fg3, ls @ [?L]) =
            Inr (fg', (ls @ [?L]) @ [Suc ?L..<Suc ?L + length datas])"
    and same: "facecolor fg' = facecolor fg" "canvas fg' = canvas fg"
    and lns: "fig_lines fg' = (fig_lines fg @ [first_line rcfg colors a idx data]) @
            map (\<lambda>k. first_line rcfg colors a (Suc idx + k) (datas ! k)) [0..<length datas]"
    and cch: "cached_x fg' = (cached_x fg @ [[0..<length data]]) @
            map (\<lambda>k. [0..<length (datas ! k)]) [0..<length datas]"
    and len: "length (fig_axes fg') = length (fig_axes fg)"
    and upd: "\<And>k. k < length datas \<Longrightarrow> fig_axes fg' ! (a ! (Suc idx + k)) =
            first_limits (datas ! k) (fig_axes ?fg3 ! (a ! (Suc idx + k)))"
    and rest: "\<And>x. x \<notin> (\<lambda>j. a ! j) ` {Suc idx..<Suc idx + length datas} \<Longrightarrow>
               fig_axes fg' ! x = fig_axes ?fg3 ! x"
    by auto
  have r1: "(ls @ [?L]) @ [Suc ?L..<Suc ?L + length datas]
      = ls @ [?L..<?L + length (data # datas)]"
    using upt_shift_Cons [of ?L "length datas"] by (simp del: upt_Suc)
  have r2: "(fig_lines fg @ [first_line rcfg colors a idx data]) @
            map (\<lambda>k. first_line rcfg colors a (Suc idx + k) (datas ! k)) [0..<length datas]
      = fig_lines fg @ map (\<lambda>k. first_line rcfg colors a (idx + k) ((data # datas) ! k))
            [0..<length (data # datas)]"
    by (simp add: map_upt_Suc del: upt_Suc)
  have r2': "(cached_x fg @ [[0..<length data]]) @
            map (\<lambda>k. [0..<length (datas ! k)]) [0..<length datas]
      = cached_x fg @ map (\<lambda>k. [0..<length ((data # datas) ! k)]) [0..<length (data # datas)]"
    by (simp add: map_upt_Suc del: upt_Suc)
  have notin: "a ! idx \<notin> (\<lambda>j. a ! j) ` {Suc idx..<Suc idx + length datas}"
  proof
    assume "a ! idx \<in> (\<lambda>j. a ! j) ` {Suc idx..<Suc idx + length datas}"
    then obtain j where j: "Suc idx \<le> j" "j < Suc idx + length datas" "a ! idx = a ! j"
      by auto
    with Cons.prems(2) have "j < length a" "idx \<noteq> j" by simp_all
    with distinct_nth_neq [OF Cons.prems(3) idx(2)] j(3) show False
      by blast
  qed
  have r3: "fig_axes fg' ! (a ! (idx + k)) =
            first_limits ((data # datas) ! k) (fig_axes fg ! (a ! (idx + k)))"
    if k: "k < length (data # datas)" for k
  proof (cases k)
    case 0
    have "fig_axes fg' ! (a ! idx) = fig_axes ?fg3 ! (a ! idx)"
      using notin by (rule rest)
    then show ?thesis
      using 0 ax by simp
  next
    case (Suc k')
    with k have k': "k' < length datas" by simp
    with Cons.prems(2) have "Suc idx + k' < length a" "idx \<noteq> Suc idx + k'" by simp_all
    then have "a ! idx \<noteq> a ! (Suc idx + k')"
      using distinct_nth_neq [OF Cons.prems(3) idx(2)] by blast
    then have "fig_axes ?fg3 ! (a ! (Suc idx + k')) = fig_axes fg ! (a ! (Suc idx + k'))"
      by simp
    with upd [OF k'] show ?thesis
      using Suc by simp
  qed
  have r4: "fig_axes fg' ! x = fig_axes fg ! x"
    if x: "x \<notin> (\<lambda>j. a ! j) ` {idx..<idx + length (data # datas)}" for x
  proof -
    from x have "x \<noteq> a ! idx" by auto
    moreover from x have "x \<notin> (\<lambda>j. a ! j) ` {Suc idx..<Suc idx + length datas}" by auto
    ultimately show ?thesis
      using rest [of x] by simp
  qed
  have c1: "plot_lines rcfg colors (Some a) idx (data # datas) (fg, ls) =
      Inr (fg', ls @ [?L..<?L + length (data # datas)])"
    using step run r1 by (simp only:)
  have c2: "fig_lines fg' = fig_lines fg @
      map (\<lambda>k. first_line rcfg colors a (idx + k) ((data # datas) ! k)) [0..<length (data # datas)]"
    using lns r2 by (simp only:)
  have c2': "cached_x fg' = cached_x fg @
      map (\<lambda>k. [0..<length ((data # datas) ! k)]) [0..<length (data # datas)]"
    using cch r2' by (simp only:)
  have c3: "\<forall>k<length (data # datas). fig_axes fg' ! (a ! (idx + k)) =
            first_limits ((data # datas) ! k) (fig_axes fg ! (a ! (idx + k)))"
    using r3 by blast
  have c4: "\<forall>x. x \<notin> (\<lambda>j. a ! j) ` {idx..<idx + length (data # datas)} \<longrightarrow>
      fig_axes fg' ! x = fig_axes fg ! x"
    using r4 by blast
  from c1 same c2 c2' len c3 c4 show ?case
    by (intro exI [of _ fg'] conjI)
qed

lemma update_lines_step:
  assumes "idx < length ls"
  shows "update_lines ls idx (data # datas) fg =
         update_lines ls (Suc idx) datas
           (fg\<lparr>fig_lines := (fig_lines fg)[ls ! idx := (fig_lines fg ! (ls ! idx))\<lparr>ydata := data\<rparr>]\<rparr>)"
  using assms by (simp add: set_ydata_def)

lemma update_lines_ok:
  assumes "idx + length datas \<le> length ls" "distinct ls" "\<forall>x\<in>set ls. x < length (fig_lines fg)"
  shows "\<exists>fg'. update_lines ls idx datas fg = Inr fg'
      \<and> facecolor fg' = facecolor fg \<and> canvas fg' = canvas fg \<and> fig_axes fg' = fig_axes fg
      \<and> cached_x fg' = cached_x fg
      \<and> length (fig_lines fg') = length (fig_lines fg)
      \<and> (\<forall>k<length datas. fig_lines fg' ! (ls ! (idx + k)) =
            (fig_lines fg ! (ls ! (idx + k)))\<lparr>ydata := datas ! k\<rparr>)
      \<and> (\<forall>x. x \<notin> (\<lambda>j. ls ! j) ` {idx..<idx + length datas} \<longrightarrow> fig_lines fg' ! x = fig_lines fg ! x)"
  using assms
proof (induction datas arbitrary: idx fg)
  case Nil
  then show ?case by simp
next
  case (Cons data datas)
  let ?fg1 = "fg\<lparr>fig_lines := (fig_lines fg)[ls ! idx := (fig_lines fg ! (ls ! idx))\<lparr>ydata := data\<rparr>]\<rparr>"
  from Cons.prems have idx: "idx < length ls"
    by simp
  with Cons.prems(3) have ln: "ls ! idx < length (fig_lines fg)"
    by simp
  have step: "update_lines ls idx (data # datas) fg = update_lines ls (Suc idx) datas ?fg1"
    by (rule update_lines_step [OF idx])
  have "\<exists>fg'. update_lines ls (Suc idx) datas ?fg1 = Inr fg'
      \<and> facecolor fg' = facecolor ?fg1 \<and> canvas fg' = canvas ?fg1 \<and> fig_axes fg' = fig_axes ?fg1
      \<and> cached_x fg' = cached_x ?fg1
      \<and> length (fig_lines fg') = length (fig_lines ?fg1)
      \<and> (\<forall>k<length datas. fig_lines fg' ! (ls ! (Suc idx + k)) =
            (fig_lines ?fg1 ! (ls ! (Suc idx + k)))\<lparr>ydata := datas ! k\<rparr>)
      \<and> (\<forall>x. x \<notin> (\<lambda>j. ls ! j) ` {Suc idx..<Suc idx + length datas} \<longrightarrow>
               fig_lines fg' ! x = fig_lines ?fg1 ! x)"
    using Cons.prems by (intro Cons.IH) simp_all
  then obtain fg' where
    run: "update_lines ls (Suc idx) datas ?fg1 = Inr fg'"
    and same: "facecolor fg' = facecolor fg" "canvas fg' = canvas fg" "fig_axes fg' = fig_axes fg"
      "cached_x fg' = cached_x fg"
    and len: "length (fig_lines fg') = length (fig_lines fg)"
    and upd: "\<And>k. k < length datas \<Longrightarrow> fig_lines fg' ! (ls ! (Suc idx + k)) =
            (fig_lines ?fg1 ! (ls ! (Suc idx + k)))\<lparr>ydata := datas ! k\<rparr>"
    and rest: "\<And>x. x \<notin> (\<lambda>j. ls ! j) ` {Suc idx..<Suc idx + length datas} \<Longrightarrow>
               fig_lines fg' ! x = fig_lines ?fg1 ! x"
    by auto
  have notin: "ls ! idx \<notin> (\<lambda>j. ls ! j) ` {Suc idx..<Suc idx + length datas}"
  proof
    assume "ls ! idx \<in> (\<lambda>j. ls ! j) ` {Suc idx..<Suc idx + length datas}"
    then obtain j where j: "Suc idx \<le> j" "j < Suc idx + length datas" "ls ! idx = ls ! j"
      by auto
    with Cons.prems(1) have "j < length ls" "idx \<noteq> j" by simp_all
    with distinct_nth_neq [OF Cons.prems(2) idx] j(3) show False
      by blast
  qed
  have r3: "fig_lines fg' ! (ls ! (idx + k)) =
            (fig_lines fg ! (ls ! (idx + k)))\<lparr>ydata := (data # datas) ! k\<rparr>"
    if k: "k < length (data # datas)" for k
  proof (cases k)
    case 0
    have "fig_lines fg' ! (ls ! idx) = fig_lines ?fg1 ! (ls ! idx)"
      using notin by (rule rest)
    then show ?thesis
      using 0 ln by simp
  next
    case (Suc k')
    with k have k': "k' < length datas" by simp
    with Cons.prems(1) have "Suc idx + k' < length ls" "idx \<noteq> Suc idx + k'" by simp_all
    then have "ls ! idx \<noteq> ls ! (Suc idx + k')"
      using distinct_nth_neq [OF Cons.prems(2) idx] by blast
    then have "fig_lines ?fg1 ! (ls ! (Suc idx + k')) = fig_lines fg ! (ls ! (Suc idx + k'))"
      by simp
    with upd [OF k'] show ?thesis
      using Suc by simp
  qed
  have r4: "fig_lines fg' ! x = fig_lines fg ! x"
    if x: "x \<notin> (\<lambda>j. ls ! j) ` {idx..<idx + length (data # datas)}" for x
  proof -
    from x have "x \<noteq> ls ! idx" by auto
    moreover from x have "x \<notin> (\<lambda>j. ls ! j) ` {Suc idx..<Suc idx + length datas}" by auto
    ultimately show ?thesis
      using rest [of x] by simp
  qed
  have c1: "update_lines ls idx (data # datas) fg = Inr fg'"
    using step run by (simp only:)
  have c3: "\<forall>k<length (data # datas). fig_lines fg' ! (ls ! (idx + k)) =
            (fig_lines fg ! (ls ! (idx + k)))\<lparr>ydata := (data # datas) ! k\<rparr>"
    using r3 by blast
  have c4: "\<forall>x. x \<notin> (\<lambda>j. ls ! j) ` {idx..<idx + length (data # datas)} \<longrightarrow>
      fig_lines fg' ! x = fig_lines fg ! x"
    using r4 by blast
  from c1 same len c3 c4 show ?case
    by (intro exI [of _ fg'] conjI)
qed

subsection \<open>The draw\<close>

lemma length_broadcast_to: "length (broadcast_to xs n) = n"
  by (simp add: broadcast_to_def)

lemma recache_same:
  assumes "length (cached_x fg ! line) = length (ydata (fig_lines fg ! line))"
  shows "recache line fg = Inr fg"
  using assms by (simp add: recache_def broadcast_shape_def broadcast_to_def)

lemma recache_Inr:
  assumes "recache line fg = Inr fg'"
  shows "\<exists>n. broadcast_shape (length (cached_x fg ! line)) (length (ydata (fig_lines fg ! line))) = Some n
           \<and> fg' = fg\<lparr>cached_x := (cached_x fg)[line := broadcast_to (cached_x fg ! line) n]\<rparr>"
  using assms by (auto simp: recache_def split: option.splits)

lemma recache_Inl:
  assumes "recache line fg = Inl e"
  shows "e = Shape_mismatch \<and> \<not> fits fg line"
  using assms by (auto simp: recache_def fits_def split: option.splits)

lemma recache_fits:
  assumes "recache line fg = Inr fg'"
  shows "fits fg line \<and> (\<forall>i. fits fg' i = fits fg i)"
proof -
  from recache_Inr [OF assms] obtain n where
    n: "broadcast_shape (length (cached_x fg ! line)) (length (ydata (fig_lines fg ! line))) = Some n"
    and fg': "fg' = fg\<lparr>cached_x := (cached_x fg)[line := broadcast_to (cached_x fg ! line) n]\<rparr>"
    by blast
  from n have here: "fits fg line"
    by (simp add: fits_def)
  have "fits fg' i = fits fg i" for i
  proof (cases "i = line \<and> line < length (cached_x fg)")
    case True
    then have "length (cached_x fg' ! i) = n"
      by (simp add: fg' length_broadcast_to)
    moreover have "broadcast_shape n (length (ydata (fig_lines fg ! line))) \<noteq> None"
      using n by (auto simp: broadcast_shape_def split: if_splits)
    ultimately have "fits fg' i"
      using True by (simp add: fits_def fg')
    with here True show ?thesis
      by simp
  next
    case False
    then have "cached_x fg' ! i = cached_x fg ! i"
      by (auto simp: fg' list_update_beyond)
    then show ?thesis
      by (simp add: fits_def fg')
  qed
  with here show ?thesis
    by blast
qed

lemma recache_kept_x:
  assumes "kept_x fg" "recache line fg = Inr fg'"
  shows "kept_x fg'"
proof -
  from recache_Inr [OF assms(2)] obtain n where
    n: "broadcast_shape (length (cached_x fg ! line)) (length (ydata (fig_lines fg ! line))) = Some n"
    and fg': "fg' = fg\<lparr>cached_x := (cached_x fg)[line := broadcast_to (cached_x fg ! line) n]\<rparr>"
    by blast
  from assms(1) have len: "length (fig_lines fg) = length (cached_x fg)"
    and each: "\<And>i. i < length (fig_lines fg) \<Longrightarrow> length (xdata (fig_lines fg ! i)) \<noteq> 1 \<Longrightarrow>
      length (cached_x fg ! i) = length (xdata (fig_lines fg ! i))"
    by (simp_all add: kept_x_def list_all2_conv_all_nth)
  have "length (cached_x fg' ! i) = length (xdata (fig_lines fg' ! i))"
    if i: "i < length (fig_lines fg')" "length (xdata (fig_lines fg' ! i)) \<noteq> 1" for i
  proof (cases "i = line")
    case True
    from i have i': "i < length (fig_lines fg)" "length (xdata (fig_lines fg ! i)) \<noteq> 1"
      by (simp_all add: fg')
    from each [OF i'] i'(2) True have "length (cached_x fg ! line) \<noteq> 1"
      "length (cached_x fg ! line) = length (xdata (fig_lines fg ! line))"
      by simp_all
    with n have "n = length (xdata (fig_lines fg ! line))"
      by (auto simp: broadcast_shape_def split: if_splits)
    with True i'(1) len show ?thesis
      by (simp add: fg' length_broadcast_to)
  next
    case False
    with i each [of i] show ?thesis
      by (simp add: fg')
  qed
  with len show ?thesis
    by (simp add: kept_x_def list_all2_conv_all_nth fg')
qed

lemma draw_lines_same:
  assumes "\<forall>line\<in>set order. length (cached_x fg ! line) = length (ydata (fig_lines fg ! line))"
  shows "draw_lines order fg = Inr fg"
  using assms by (induction order) (simp_all add: recache_same)

lemma draw_lines_frame:
  "facecolor (state_after (draw_lines order fg)) = facecolor fg
   \<and> fig_axes (state_after (draw_lines order fg)) = fig_axes fg
   \<and> fig_lines (state_after (draw_lines order fg)) = fig_lines fg
   \<and> canvas (state_after (draw_lines order fg)) = canvas fg"
proof (induction order arbitrary: fg)
  case Nil
  show ?case by (simp add: state_after_def)
next
  case (Cons line rest)
  show ?case
  proof (cases "recache line fg")
    case (Inl e)
    then show ?thesis by (simp add: state_after_def)
  next
    case (Inr fg1)
    from recache_Inr [OF Inr] obtain xs where "fg1 = fg\<lparr>cached_x := xs\<rparr>"
      by blast
    with Cons.IH [of fg1] Inr show ?thesis
      by simp
  qed
qed

lemma draw_lines_kept_x:
  "kept_x fg \<Longrightarrow> kept_x (state_after (draw_lines order fg))"
proof (induction order arbitrary: fg)
  case Nil
  then show ?case by (simp add: state_after_def)
next
  case (Cons line rest)
  show ?case
  proof (cases "recache line fg")
    case (Inl e)
    with Cons.prems show ?thesis by (simp add: state_after_def)
  next
    case (Inr fg1)
    from recache_kept_x [OF Cons.prems Inr] have "kept_x fg1" .
    from Cons.IH [OF this] Inr show ?thesis
      by simp
  qed
qed

lemma draw_lines_Inr_iff:
  "(\<exists>fg'. draw_lines order fg = Inr fg') = (\<forall>line\<in>set order. fits fg line)"
proof (induction order arbitrary: fg)
  case Nil
  show ?case by simp
next
  case (Cons line rest)
  show ?case
  proof (cases "recache line fg")
    case (Inl e)
    with recache_Inl [OF Inl] show ?thesis by simp
  next
    case (Inr fg1)
    from recache_fits [OF Inr] Cons.IH [of fg1] Inr show ?thesis
      by simp
  qed
qed

lemma draw_lines_Inl:
  "draw_lines order fg = Inl (e, fg') \<Longrightarrow> e = Shape_mismatch"
proof (induction order arbitrary: fg)
  case Nil
  then show ?case by simp
next
  case (Cons line rest)
  show ?case
  proof (cases "recache line fg")
    case (Inl e')
    with recache_Inl [OF Inl] Cons.prems show ?thesis by simp
  next
    case (Inr fg1)
    with Cons.prems Cons.IH [of fg1] show ?thesis
      by simp
  qed
qed

lemma set_draw_order:
  "set (draw_order fg) =
     {line. line < length (fig_lines fg) \<and> line_axes (fig_lines fg ! line) < length (fig_axes fg)}"
  by (auto simp: draw_order_def)

lemma canvas_draw_same:
  assumes "\<forall>line<length (fig_lines fg).
             length (cached_x fg ! line) = length (ydata (fig_lines fg ! line))"
  shows "canvas_draw B fg = Inr (with_renderer B fg)"
proof -
  have "draw_lines (draw_order fg) fg = Inr fg"
    using assms by (intro draw_lines_same) (simp add: set_draw_order)
  then show ?thesis
    by (simp add: canvas_draw_def)
qed

lemma canvas_draw_result:
  assumes "list_all (\<lambda>line. line_axes line < length (fig_axes fg)) (fig_lines fg)"
  shows "\<exists>fg'. canvas_draw B fg =
                  (if \<forall>line<length (fig_lines fg). fits fg line then Inr fg'
                   else Inl (Shape_mismatch, fg'))
      \<and> facecolor fg' = facecolor fg \<and> fig_axes fg' = fig_axes fg \<and> fig_lines fg' = fig_lines fg
      \<and> canvas_class (canvas fg') = canvas_class (canvas fg)
      \<and> get_width_height (canvas fg') = get_width_height (canvas fg)
      \<and> canvas_renderer (canvas fg') \<noteq> None
      \<and> (kept_x fg \<longrightarrow> kept_x fg')"
proof -
  let ?r = "draw_lines (draw_order fg) fg"
  let ?d = "state_after ?r"
  note frame = draw_lines_frame [of "draw_order fg" fg]
  from assms have "set (draw_order fg) = {line. line < length (fig_lines fg)}"
    by (auto simp: set_draw_order list_all_length)
  then have iff: "(\<exists>fg'. ?r = Inr fg') = (\<forall>line<length (fig_lines fg). fits fg line)"
    by (simp add: draw_lines_Inr_iff)
  have run: "canvas_draw B fg =
                  (if \<forall>line<length (fig_lines fg). fits fg line then Inr (with_renderer B ?d)
                   else Inl (Shape_mismatch, with_renderer B ?d))"
  proof (cases ?r)
    case (Inl p)
    obtain e f where p: "p = (e, f)" by (cases p)
    from Inl p draw_lines_Inl [of "draw_order fg" fg e f] have "e = Shape_mismatch"
      by simp
    moreover from Inl iff have "\<not> (\<forall>line<length (fig_lines fg). fits fg line)"
      by auto
    ultimately show ?thesis
      using Inl p by (simp add: canvas_draw_def state_after_def)
  next
    case (Inr f)
    with iff have "\<forall>line<length (fig_lines fg). fits fg line"
      by auto
    then show ?thesis
      using Inr by (simp add: canvas_draw_def state_after_def)
  qed
  have kept: "kept_x fg \<longrightarrow> kept_x (with_renderer B ?d)"
    using draw_lines_kept_x [of fg "draw_order fg"] by (simp add: kept_x_def with_renderer_def)
  from frame have props: "facecolor (with_renderer B ?d) = facecolor fg"
    "fig_axes (with_renderer B ?d) = fig_axes fg" "fig_lines (with_renderer B ?d) = fig_lines fg"
    "canvas_class (canvas (with_renderer B ?d)) = canvas_class (canvas fg)"
    "get_width_height (canvas (with_renderer B ?d)) = get_width_height (canvas fg)"
    "canvas_renderer (canvas (with_renderer B ?d)) \<noteq> None"
    by (simp_all add: with_renderer_def)
  from run props kept show ?thesis
    by (intro exI [of _ "with_renderer B ?d"] conjI)
qed

subsection \<open>One call of \<^verbatim>\<open>render_frame\<close>, and the invariant\<close>

lemma render_frame_arity:
  "int (length datas) \<noteq> nplots self \<Longrightarrow>
     render_frame B self datas = Inl (Incorrect_data (nplots self) (int (length datas)), self)"
  by (auto simp: render_frame_def Let_def)

lemma render_frame_first:
  assumes inv: "renderer_inv self" and first: "lines self = None"
    and arity: "int (length datas) = nplots self"
  shows "\<exists>fg a fg'. fig self = Some fg \<and> axes self = Some a
      \<and> render_frame B self datas =
          Inr (self\<lparr>fig := Some (with_renderer B fg'), lines := Some [0..<length datas]\<rparr>)
      \<and> facecolor fg' = Some (bg_color (renderer_cfg self))
      \<and> fig_lines fg' =
          map (\<lambda>k. first_line (renderer_cfg self) (line_colors self) a k (datas ! k)) [0..<length datas]
      \<and> cached_x fg' = map (\<lambda>k. [0..<length (datas ! k)]) [0..<length datas]
      \<and> canvas fg' = canvas fg
      \<and> length (fig_axes fg') = length (fig_axes fg)
      \<and> (\<forall>k<length datas. fig_axes fg' ! (a ! k) = first_limits (datas ! k) (fig_axes fg ! (a ! k)))
      \<and> (\<forall>x. x \<notin> set a \<longrightarrow> fig_axes fg' ! x = fig_axes fg ! x)"
proof -
  from inv obtain fg a where fg: "fig self = Some fg" and a: "axes self = Some a"
    and props: "length a = nat (nplots self)" "distinct a"
      "\<forall>x\<in>set a. x < length (fig_axes fg)" "length (line_colors self) = nat (nplots self)"
      "fig_lines fg = []" "cached_x fg = []"
    using first
    by (auto simp: renderer_inv_def kept_x_def list_all_iff split: option.splits)
  from arity props have len: "length datas = length a" "length datas = length (line_colors self)"
    by simp_all
  let ?fg0 = "fg\<lparr>facecolor := Some (bg_color (renderer_cfg self))\<rparr>"
  have "\<exists>fg'. plot_lines (renderer_cfg self) (line_colors self) (Some a) 0 datas (?fg0, []) =
                  Inr (fg', [] @ [length (fig_lines ?fg0)..<length (fig_lines ?fg0) + length datas])
      \<and> facecolor fg' = facecolor ?fg0 \<and> canvas fg' = canvas ?fg0
      \<and> fig_lines fg' = fig_lines ?fg0 @
            map (\<lambda>k. first_line (renderer_cfg self) (line_colors self) a (0 + k) (datas ! k))
              [0..<length datas]
      \<and> cached_x fg' = cached_x ?fg0 @ map (\<lambda>k. [0..<length (datas ! k)]) [0..<length datas]
      \<and> length (fig_axes fg') = length (fig_axes ?fg0)
      \<and> (\<forall>k<length datas. fig_axes fg' ! (a ! (0 + k)) =
            first_limits (datas ! k) (fig_axes ?fg0 ! (a ! (0 + k))))
      \<and> (\<forall>x. x \<notin> (\<lambda>j. a ! j) ` {0..<0 + length datas} \<longrightarrow> fig_axes fg' ! x = fig_axes ?fg0 ! x)"
    using len props by (intro plot_lines_ok) simp_all
  then obtain fg' where
    run: "plot_lines (renderer_cfg self) (line_colors self) (Some a) 0 datas (?fg0, []) =
            Inr (fg', [0..<length datas])"
    and face: "facecolor fg' = Some (bg_color (renderer_cfg self))"
    and cv: "canvas fg' = canvas fg"
    and lns: "fig_lines fg' =
          map (\<lambda>k. first_line (renderer_cfg self) (line_colors self) a k (datas ! k)) [0..<length datas]"
    and cch: "cached_x fg' = map (\<lambda>k. [0..<length (datas ! k)]) [0..<length datas]"
    and alen: "length (fig_axes fg') = length (fig_axes fg)"
    and upd: "\<forall>k<length datas. fig_axes fg' ! (a ! k) = first_limits (datas ! k) (fig_axes fg ! (a ! k))"
    and rest: "\<forall>x. x \<notin> (\<lambda>j. a ! j) ` {0..<length datas} \<longrightarrow> fig_axes fg' ! x = fig_axes fg ! x"
    using props(5,6) by auto
  have "(\<lambda>j. a ! j) ` {0..<length datas} = set a"
    using len(1) by (auto simp: set_conv_nth)
  with rest have rest': "\<forall>x. x \<notin> set a \<longrightarrow> fig_axes fg' ! x = fig_axes fg ! x"
    by simp
  have dr: "canvas_draw B fg' = Inr (with_renderer B fg')"
    by (rule canvas_draw_same) (simp add: lns cch first_line_def)
  have "render_frame B self datas =
          Inr (self\<lparr>fig := Some (with_renderer B fg'), lines := Some [0..<length datas]\<rparr>)"
    using arity fg a first run dr by (simp add: render_frame_def Let_def)
  from fg a this face lns cch cv alen upd rest' show ?thesis
    by (intro exI [of _ fg] exI [of _ a] exI [of _ fg'] conjI)
qed

lemma render_frame_later:
  assumes inv: "renderer_inv self" and later: "lines self = Some ls"
    and arity: "int (length datas) = nplots self"
  shows "\<exists>fg fg'. fig self = Some fg \<and> ls = [0..<length datas]
      \<and> length (fig_lines fg) = length datas
      \<and> render_frame B self datas =
          (if \<forall>k<length datas.
                 broadcast_shape (length (cached_x fg ! k)) (length (datas ! k)) \<noteq> None
           then Inr (self\<lparr>fig := Some fg', lines := Some ls\<rparr>)
           else Inl (Shape_mismatch, self\<lparr>fig := Some fg', lines := Some ls\<rparr>))
      \<and> facecolor fg' = facecolor fg \<and> fig_axes fg' = fig_axes fg
      \<and> length (fig_lines fg') = length (fig_lines fg)
      \<and> (\<forall>k<length datas. fig_lines fg' ! k = (fig_lines fg ! k)\<lparr>ydata := datas ! k\<rparr>)
      \<and> canvas_class (canvas fg') = canvas_class (canvas fg)
      \<and> get_width_height (canvas fg') = get_width_height (canvas fg)
      \<and> canvas_renderer (canvas fg') \<noteq> None
      \<and> kept_x fg'
      \<and> list_all (\<lambda>line. line_axes line < length (fig_axes fg')) (fig_lines fg')"
proof -
  from inv later obtain fg a where fg: "fig self = Some fg" and a: "axes self = Some a"
    and props: "ls = [0..<nat (nplots self)]" "length (fig_lines fg) = nat (nplots self)"
    and on_axes: "list_all (\<lambda>line. line_axes line < length (fig_axes fg)) (fig_lines fg)"
    and kept: "kept_x fg"
    by (auto simp: renderer_inv_def split: option.splits)
  from arity have n: "nat (nplots self) = length datas"
    by simp
  from props have len: "length datas = length ls" "ls = [0..<length datas]"
    "length (fig_lines fg) = length datas"
    unfolding n by simp_all
  have "\<exists>fg'. update_lines ls 0 datas fg = Inr fg'
      \<and> facecolor fg' = facecolor fg \<and> canvas fg' = canvas fg \<and> fig_axes fg' = fig_axes fg
      \<and> cached_x fg' = cached_x fg
      \<and> length (fig_lines fg') = length (fig_lines fg)
      \<and> (\<forall>k<length datas. fig_lines fg' ! (ls ! (0 + k)) =
            (fig_lines fg ! (ls ! (0 + k)))\<lparr>ydata := datas ! k\<rparr>)
      \<and> (\<forall>x. x \<notin> (\<lambda>j. ls ! j) ` {0..<0 + length datas} \<longrightarrow> fig_lines fg' ! x = fig_lines fg ! x)"
    using len by (intro update_lines_ok) simp_all
  then obtain fg1 where run: "update_lines ls 0 datas fg = Inr fg1"
    and same: "facecolor fg1 = facecolor fg" "fig_axes fg1 = fig_axes fg"
      "length (fig_lines fg1) = length (fig_lines fg)"
    and cv: "canvas fg1 = canvas fg" and cch: "cached_x fg1 = cached_x fg"
    and upd: "\<forall>k<length datas. fig_lines fg1 ! (ls ! k) = (fig_lines fg ! (ls ! k))\<lparr>ydata := datas ! k\<rparr>"
    by auto
  from upd len(2) have upd': "\<forall>k<length datas. fig_lines fg1 ! k = (fig_lines fg ! k)\<lparr>ydata := datas ! k\<rparr>"
    by simp
  have on_axes1: "list_all (\<lambda>line. line_axes line < length (fig_axes fg1)) (fig_lines fg1)"
    using on_axes upd' same len(3) by (simp add: list_all_length)
  from kept have "length (fig_lines fg) = length (cached_x fg)"
    and "\<And>i. i < length (fig_lines fg) \<Longrightarrow> length (xdata (fig_lines fg ! i)) \<noteq> 1 \<Longrightarrow>
      length (cached_x fg ! i) = length (xdata (fig_lines fg ! i))"
    by (simp_all add: kept_x_def list_all2_conv_all_nth)
  then have kept1: "kept_x fg1"
    using upd' same len(3) cch by (simp add: kept_x_def list_all2_conv_all_nth)
  from canvas_draw_result [OF on_axes1, of B] obtain fg' where
    dr: "canvas_draw B fg1 =
           (if \<forall>line<length (fig_lines fg1). fits fg1 line then Inr fg'
            else Inl (Shape_mismatch, fg'))"
    and frame: "facecolor fg' = facecolor fg1" "fig_axes fg' = fig_axes fg1"
      "fig_lines fg' = fig_lines fg1"
      "canvas_class (canvas fg') = canvas_class (canvas fg1)"
      "get_width_height (canvas fg') = get_width_height (canvas fg1)"
      "canvas_renderer (canvas fg') \<noteq> None"
    and kept': "kept_x fg1 \<longrightarrow> kept_x fg'"
    by blast
  have fits: "(\<forall>line<length (fig_lines fg1). fits fg1 line) =
      (\<forall>k<length datas. broadcast_shape (length (cached_x fg ! k)) (length (datas ! k)) \<noteq> None)"
    using upd' same(3) len(3) cch by (simp add: fits_def)
  have c1: "render_frame B self datas =
          (if \<forall>k<length datas.
                 broadcast_shape (length (cached_x fg ! k)) (length (datas ! k)) \<noteq> None
           then Inr (self\<lparr>fig := Some fg', lines := Some ls\<rparr>)
           else Inl (Shape_mismatch, self\<lparr>fig := Some fg', lines := Some ls\<rparr>))"
    using arity fg later run dr fits by (simp add: render_frame_def Let_def)
  have c2: "facecolor fg' = facecolor fg" "fig_axes fg' = fig_axes fg"
    "length (fig_lines fg') = length (fig_lines fg)"
    using frame same by simp_all
  have c3: "\<forall>k<length datas. fig_lines fg' ! k = (fig_lines fg ! k)\<lparr>ydata := datas ! k\<rparr>"
    using upd' frame(3) by simp
  have c4: "canvas_class (canvas fg') = canvas_class (canvas fg)"
    "get_width_height (canvas fg') = get_width_height (canvas fg)"
    using frame cv by simp_all
  have c5: "kept_x fg'"
    using kept' kept1 by simp
  have c6: "list_all (\<lambda>line. line_axes line < length (fig_axes fg')) (fig_lines fg')"
    using on_axes1 frame by simp
  from fg len(2,3) c1 c2 c3 c4 frame(6) c5 c6 show ?thesis
    by (intro exI [of _ fg] exI [of _ fg'] conjI)
qed

lemma set_colors_inv:
  assumes "renderer_inv self" "set_colors self channel_cfgs = Inr self'"
  shows "renderer_inv self'"
proof -
  from assms(2) have "int (length channel_cfgs) = nplots self"
    and "self' = self\<lparr>line_colors := map line_color channel_cfgs\<rparr>"
    by (auto simp: set_colors_def split: if_splits)
  with assms(1) show ?thesis
    by (auto simp: renderer_inv_def split: option.splits)
qed

lemma render_frame_inv:
  assumes inv: "renderer_inv self"
  shows "renderer_inv (state_after (render_frame B self datas))"
proof (cases "int (length datas) = nplots self")
  case False
  with inv show ?thesis
    by (simp add: render_frame_arity state_after_def)
next
  case arity: True
  then have n: "nat (nplots self) = length datas" by simp
  show ?thesis
  proof (cases "lines self")
    case None
    from render_frame_first [OF inv None arity, of B] obtain fg a fg' where
      fg: "fig self = Some fg" and a: "axes self = Some a"
      and run: "render_frame B self datas =
          Inr (self\<lparr>fig := Some (with_renderer B fg'), lines := Some [0..<length datas]\<rparr>)"
      and lns: "fig_lines fg' =
          map (\<lambda>k. first_line (renderer_cfg self) (line_colors self) a k (datas ! k)) [0..<length datas]"
      and cch: "cached_x fg' = map (\<lambda>k. [0..<length (datas ! k)]) [0..<length datas]"
      and alen: "length (fig_axes fg') = length (fig_axes fg)"
      by blast
    from inv fg a n have props: "length a = length datas" "distinct a"
      "\<forall>x\<in>set a. x < length (fig_axes fg)" "length (line_colors self) = length datas"
      by (auto simp: renderer_inv_def list_all_iff)
    have on_axes: "list_all (\<lambda>line. line_axes line < length (fig_axes fg')) (fig_lines fg')"
      using props(1,3) alen by (simp add: lns list_all_length first_line_def)
    have kept: "kept_x fg'"
      by (simp add: kept_x_def lns cch list_all2_conv_all_nth first_line_def)
    have "renderer_inv (self\<lparr>fig := Some (with_renderer B fg'), lines := Some [0..<length datas]\<rparr>)"
      using a props alen on_axes kept n
      by (simp add: renderer_inv_def with_renderer_def kept_x_def list_all_iff lns)
    then show ?thesis
      by (simp add: run state_after_def)
  next
    case (Some ls)
    from render_frame_later [OF inv Some arity, of B] obtain fg fg' where
      fg: "fig self = Some fg"
      and run: "render_frame B self datas =
          (if \<forall>k<length datas.
                 broadcast_shape (length (cached_x fg ! k)) (length (datas ! k)) \<noteq> None
           then Inr (self\<lparr>fig := Some fg', lines := Some ls\<rparr>)
           else Inl (Shape_mismatch, self\<lparr>fig := Some fg', lines := Some ls\<rparr>))"
      and frame: "fig_axes fg' = fig_axes fg" "length (fig_lines fg') = length (fig_lines fg)"
        "canvas_renderer (canvas fg') \<noteq> None" "kept_x fg'"
        "list_all (\<lambda>line. line_axes line < length (fig_axes fg')) (fig_lines fg')"
      by blast
    have "renderer_inv (self\<lparr>fig := Some fg', lines := Some ls\<rparr>)"
      using inv fg Some frame
      by (auto simp: renderer_inv_def split: option.splits)
    then show ?thesis
      by (simp add: run state_after_def)
  qed
qed

lemma reachable_inv: "reachable B self \<Longrightarrow> renderer_inv self"
proof (induction rule: reachable.induct)
  case (constructed rcfg lc n self)
  then show ?case using MatplotlibRenderer_init_inv by blast
next
  case (coloured self channel_cfgs self')
  then show ?case using set_colors_inv by blast
next
  case (rendered self datas self')
  with render_frame_inv [of self B datas] show ?case
    by (simp add: state_after_def)
next
  case (raised self datas e self')
  with render_frame_inv [of self B datas] show ?case
    by (simp add: state_after_def)
qed

lemma render_frame_errors:
  assumes "reachable B self" "render_frame B self datas = Inl (e, self')"
  shows "(int (length datas) \<noteq> nplots self
            \<and> e = Incorrect_data (nplots self) (int (length datas)) \<and> self' = self)
       \<or> (int (length datas) = nplots self
            \<and> e = Shape_mismatch \<and> lines self \<noteq> None \<and> lines self' = lines self)"
proof (cases "int (length datas) = nplots self")
  case False
  with assms(2) show ?thesis
    by (auto simp: render_frame_arity)
next
  case arity: True
  note inv = reachable_inv [OF assms(1)]
  show ?thesis
  proof (cases "lines self")
    case None
    from render_frame_first [OF inv None arity, of B] assms(2) show ?thesis
      by auto
  next
    case (Some ls)
    from render_frame_later [OF inv Some arity, of B] obtain fg' c where
      "render_frame B self datas =
          (if c then Inr (self\<lparr>fig := Some fg', lines := Some ls\<rparr>)
           else Inl (Shape_mismatch, self\<lparr>fig := Some fg', lines := Some ls\<rparr>))"
      by blast
    with assms(2) Some arity show ?thesis
      by (cases c) auto
  qed
qed

lemma render_frame_sets_lines:
  assumes "reachable B self" "int (length datas) = nplots self"
  shows "lines (state_after (render_frame B self datas)) \<noteq> None"
proof (cases "lines self")
  case None
  from render_frame_first [OF reachable_inv [OF assms(1)] None assms(2), of B] show ?thesis
    by (auto simp: state_after_def)
next
  case (Some ls)
  from render_frame_later [OF reachable_inv [OF assms(1)] Some assms(2), of B] obtain fg' c where
    "render_frame B self datas =
        (if c then Inr (self\<lparr>fig := Some fg', lines := Some ls\<rparr>)
         else Inl (Shape_mismatch, self\<lparr>fig := Some fg', lines := Some ls\<rparr>))"
    by blast
  then show ?thesis
    by (cases c) (simp_all add: state_after_def)
qed

lemma render_frame_Inr:
  assumes "render_frame B self datas = Inr self'"
  shows "\<exists>fg' ls'. self' = self\<lparr>fig := Some fg', lines := Some ls'\<rparr>"
proof -
  from assms have arity: "nplots self = int (length datas)"
    by (cases "nplots self = int (length datas)") (simp_all add: render_frame_def)
  from assms arity obtain fg where fg: "fig self = Some fg"
    by (cases "fig self") (simp_all add: render_frame_def)
  define X where "X = (case lines self of
                    None \<Rightarrow>
                      plot_lines (renderer_cfg self) (line_colors self) (axes self) 0 datas
                        (fg\<lparr>facecolor := Some (bg_color (renderer_cfg self))\<rparr>, [])
                  | Some ls \<Rightarrow>
                      (case update_lines ls 0 datas fg of
                         Inl (e, fg') \<Rightarrow> Inl (e, fg', ls)
                       | Inr fg' \<Rightarrow> Inr (fg', ls)))"
  have run: "render_frame B self datas =
      (case X of
         Inl (e, fg', ls') \<Rightarrow> Inl (e, self\<lparr>fig := Some fg', lines := Some ls'\<rparr>)
       | Inr (fg', ls') \<Rightarrow>
           (case canvas_draw B fg' of
              Inl (e, fg'') \<Rightarrow> Inl (e, self\<lparr>fig := Some fg'', lines := Some ls'\<rparr>)
            | Inr fg'' \<Rightarrow> Inr (self\<lparr>fig := Some fg'', lines := Some ls'\<rparr>)))"
    unfolding X_def using arity fg by (simp add: render_frame_def)
  show ?thesis
  proof (cases X)
    case (Inl p)
    with run assms show ?thesis
      by (cases p) auto
  next
    case (Inr q)
    obtain fg' ls' where q: "q = (fg', ls')" by (cases q)
    show ?thesis
    proof (cases "canvas_draw B fg'")
      case (Inl p)
      with run assms Inr q show ?thesis
        by (cases p) auto
    next
      case (Inr fg'')
      with run assms \<open>X = Inr q\<close> q show ?thesis
        by auto
    qed
  qed
qed

subsection \<open>The example, evaluated\<close>

lemma demo0_constructed: "MatplotlibRenderer_init demo_backend demo_cfg demo_lcfg 3 = Inr demo0"
  by code_simp

lemma demo1_rendered: "render_frame demo_backend demo0 demo_datas = Inr demo1"
  by code_simp

lemma demo0_reachable: "reachable demo_backend demo0"
  using demo0_constructed by (rule reachable.constructed)

lemma demo1_reachable: "reachable demo_backend demo1"
  using demo0_reachable demo1_rendered by (rule reachable.rendered)

lemma demo2_raised:
  "render_frame demo_backend demo1 [[5], [6, 7], []] = Inl (Shape_mismatch, demo2)"
  by code_simp

lemma demo2_reachable: "reachable demo_backend demo2"
  using demo1_reachable demo2_raised by (rule reachable.raised)

lemma demo3_rendered:
  "render_frame demo_backend demo1 [[9, 9, 9], [8, 8, 8], [7, 7, 7]] = Inr demo3"
  by code_simp

lemma short0_constructed: "MatplotlibRenderer_init short_backend demo_cfg demo_lcfg 3 = Inr demo0"
  by code_simp

lemma short1_rendered: "render_frame short_backend demo0 demo_datas = Inr short1"
  by code_simp

lemma short1_reachable: "reachable short_backend short1"
  using reachable.constructed [OF short0_constructed] short1_rendered by (rule reachable.rendered)

subsection \<open>The claims about the renderer\<close>

text \<open>
  Claim C5. In a renderer that has drawn no frame yet (\<^verbatim>\<open>_lines\<close> is \<^verbatim>\<open>None\<close>),
  \<^verbatim>\<open>render_frame\<close> fails with an ArityMismatch, and leaves the renderer as it was,
  unless it is given one data sequence for each channel. Otherwise it succeeds (every new
  line has as many x values as samples, so the draw cannot raise): the face colour of the
  figure is the
  configured background, and for each channel \<open>i\<close> the Axes of the channel has the x
  limits \<open>(0, len(datas[i]) - 1)\<close> and the y limits \<open>(-1, 1)\<close>, and one new line on that
  Axes plots \<open>datas[i]\<close> in the stored override colour of the channel if there is one,
  else in \<^verbatim>\<open>init_line_color\<close>, with the configured line width. These are all the
  lines of the figure, each channel has an Axes of its own, and \<^verbatim>\<open>_lines\<close> is set, so
  the renderer is initialised.
\<close>

theorem first_render_frame:
  assumes "reachable B self" and "lines self = None"
  shows "(int (length datas) \<noteq> nplots self \<longrightarrow>
           (\<exists>e. render_frame B self datas = Inl (e, self) \<and> taxonomy e = ArityMismatch))
       \<and> (int (length datas) = nplots self \<longrightarrow>
           (\<exists>self' fg fg' a ls.
              render_frame B self datas = Inr self'
            \<and> fig self = Some fg \<and> fig self' = Some fg'
            \<and> axes self = Some a \<and> axes self' = Some a \<and> distinct a
            \<and> lines self' = Some ls \<and> length ls = length datas \<and> distinct ls
            \<and> facecolor fg' = Some (bg_color (renderer_cfg self))
            \<and> fig_lines fg = [] \<and> length (fig_lines fg') = length datas
            \<and> (\<forall>i<length datas.
                  a ! i < length (fig_axes fg')
                \<and> xlim (fig_axes fg' ! (a ! i)) = Some (0, int (length (datas ! i)) - 1)
                \<and> ylim (fig_axes fg' ! (a ! i)) = Some (- 1, 1)
                \<and> fig_lines fg' ! (ls ! i) =
                     \<lparr>line_axes = a ! i, xdata = [0..<length (datas ! i)], ydata = datas ! i,
                      color = (case line_colors self ! i of
                                 Some c \<Rightarrow> c | None \<Rightarrow> init_line_color (renderer_cfg self)),
                      linewidth = line_width (renderer_cfg self)\<rparr>)))"
proof (intro conjI impI)
  assume "int (length datas) \<noteq> nplots self"
  then show "\<exists>e. render_frame B self datas = Inl (e, self) \<and> taxonomy e = ArityMismatch"
    by (simp add: render_frame_arity)
next
  assume arity: "int (length datas) = nplots self"
  note inv = reachable_inv [OF assms(1)]
  from render_frame_first [OF inv assms(2) arity, of B] obtain fg a fg' where
    fg: "fig self = Some fg" and a: "axes self = Some a"
    and run: "render_frame B self datas =
          Inr (self\<lparr>fig := Some (with_renderer B fg'), lines := Some [0..<length datas]\<rparr>)"
    and face: "facecolor fg' = Some (bg_color (renderer_cfg self))"
    and lns: "fig_lines fg' =
          map (\<lambda>k. first_line (renderer_cfg self) (line_colors self) a k (datas ! k)) [0..<length datas]"
    and alen: "length (fig_axes fg') = length (fig_axes fg)"
    and upd: "\<forall>k<length datas. fig_axes fg' ! (a ! k) = first_limits (datas ! k) (fig_axes fg ! (a ! k))"
    by blast
  from inv fg a assms(2) arity have props: "length a = length datas" "distinct a"
    "\<forall>x\<in>set a. x < length (fig_axes fg)" "fig_lines fg = []"
    by (auto simp: renderer_inv_def list_all_iff)
  let ?self' = "self\<lparr>fig := Some (with_renderer B fg'), lines := Some [0..<length datas]\<rparr>"
  let ?fg'' = "with_renderer B fg'"
  have each: "a ! i < length (fig_axes ?fg'')
                \<and> xlim (fig_axes ?fg'' ! (a ! i)) = Some (0, int (length (datas ! i)) - 1)
                \<and> ylim (fig_axes ?fg'' ! (a ! i)) = Some (- 1, 1)
                \<and> fig_lines ?fg'' ! ([0..<length datas] ! i) =
                     \<lparr>line_axes = a ! i, xdata = [0..<length (datas ! i)], ydata = datas ! i,
                      color = (case line_colors self ! i of
                                 Some c \<Rightarrow> c | None \<Rightarrow> init_line_color (renderer_cfg self)),
                      linewidth = line_width (renderer_cfg self)\<rparr>"
    if i: "i < length datas" for i
  proof -
    from i props have "a ! i < length (fig_axes fg)" by simp
    moreover from upd i have "fig_axes fg' ! (a ! i) = first_limits (datas ! i) (fig_axes fg ! (a ! i))"
      by simp
    ultimately show ?thesis
      using i alen by (simp add: lns first_limits_def first_line_def with_renderer_def)
  qed
  have all: "\<forall>i<length datas.
                  a ! i < length (fig_axes ?fg'')
                \<and> xlim (fig_axes ?fg'' ! (a ! i)) = Some (0, int (length (datas ! i)) - 1)
                \<and> ylim (fig_axes ?fg'' ! (a ! i)) = Some (- 1, 1)
                \<and> fig_lines ?fg'' ! ([0..<length datas] ! i) =
                     \<lparr>line_axes = a ! i, xdata = [0..<length (datas ! i)], ydata = datas ! i,
                      color = (case line_colors self ! i of
                                 Some c \<Rightarrow> c | None \<Rightarrow> init_line_color (renderer_cfg self)),
                      linewidth = line_width (renderer_cfg self)\<rparr>"
    using each by (intro allI impI)
  have c1: "fig ?self' = Some ?fg''" "axes ?self' = Some a"
    "lines ?self' = Some [0..<length datas]"
    using a by simp_all
  have c2: "length [0..<length datas] = length datas" "distinct [0..<length datas]"
    by simp_all
  have c3: "facecolor ?fg'' = Some (bg_color (renderer_cfg self))"
    "length (fig_lines ?fg'') = length datas"
    using face by (simp_all add: lns with_renderer_def)
  from run fg c1(1) a c1(2) props(2) c1(3) c2 c3(1) props(4) c3(2) all
  show "\<exists>self' fg fg' a ls.
              render_frame B self datas = Inr self'
            \<and> fig self = Some fg \<and> fig self' = Some fg'
            \<and> axes self = Some a \<and> axes self' = Some a \<and> distinct a
            \<and> lines self' = Some ls \<and> length ls = length datas \<and> distinct ls
            \<and> facecolor fg' = Some (bg_color (renderer_cfg self))
            \<and> fig_lines fg = [] \<and> length (fig_lines fg') = length datas
            \<and> (\<forall>i<length datas.
                  a ! i < length (fig_axes fg')
                \<and> xlim (fig_axes fg' ! (a ! i)) = Some (0, int (length (datas ! i)) - 1)
                \<and> ylim (fig_axes fg' ! (a ! i)) = Some (- 1, 1)
                \<and> fig_lines fg' ! (ls ! i) =
                     \<lparr>line_axes = a ! i, xdata = [0..<length (datas ! i)], ydata = datas ! i,
                      color = (case line_colors self ! i of
                                 Some c \<Rightarrow> c | None \<Rightarrow> init_line_color (renderer_cfg self)),
                      linewidth = line_width (renderer_cfg self)\<rparr>)"
    by (intro exI [of _ ?self'] exI [of _ fg] exI [of _ ?fg''] exI [of _ a]
        exI [of _ "[0..<length datas]"] conjI)
qed

theorem first_render_frame_witness:
  "MatplotlibRenderer_init demo_backend demo_cfg demo_lcfg 3 = Inr demo0
   \<and> lines demo0 = None
   \<and> render_frame demo_backend demo0 demo_datas = Inr demo1
   \<and> (\<exists>e. render_frame demo_backend demo0 [[0, 1, 0]] = Inl (e, demo0) \<and> taxonomy e = ArityMismatch)
   \<and> (\<exists>self' fg fg' a ls.
              render_frame demo_backend demo0 demo_datas = Inr self'
            \<and> fig demo0 = Some fg \<and> fig self' = Some fg'
            \<and> axes demo0 = Some a \<and> axes self' = Some a \<and> distinct a
            \<and> lines self' = Some ls \<and> length ls = length demo_datas \<and> distinct ls
            \<and> facecolor fg' = Some (bg_color (renderer_cfg demo0))
            \<and> fig_lines fg = [] \<and> length (fig_lines fg') = length demo_datas
            \<and> (\<forall>i<length demo_datas.
                  a ! i < length (fig_axes fg')
                \<and> xlim (fig_axes fg' ! (a ! i)) = Some (0, int (length (demo_datas ! i)) - 1)
                \<and> ylim (fig_axes fg' ! (a ! i)) = Some (- 1, 1)
                \<and> fig_lines fg' ! (ls ! i) =
                     \<lparr>line_axes = a ! i, xdata = [0..<length (demo_datas ! i)], ydata = demo_datas ! i,
                      color = (case line_colors demo0 ! i of
                                 Some c \<Rightarrow> c | None \<Rightarrow> init_line_color (renderer_cfg demo0)),
                      linewidth = line_width (renderer_cfg demo0)\<rparr>))"
proof -
  have none: "lines demo0 = None"
    by (simp add: demo0_def)
  have arity: "int (length demo_datas) = nplots demo0"
    and wrong: "int (length [[0, 1, 0::int]]) \<noteq> nplots demo0"
    by (simp_all add: demo0_def demo_datas_def)
  from first_render_frame [OF demo0_reachable none, of demo_datas] arity
    first_render_frame [OF demo0_reachable none, of "[[0, 1, 0]]"] wrong
    demo0_constructed none demo1_rendered
  show ?thesis
    by blast
qed

text \<open>
  Claim C6. In a renderer that has drawn a frame (\<^verbatim>\<open>_lines\<close> is set), a call of
  \<^verbatim>\<open>render_frame\<close> with one data sequence for each channel overwrites the y data of
  the line of each channel and nothing else the renderer set: \<^verbatim>\<open>_lines\<close> holds the
  same lines, the figure has as many lines as before, each keeps its x data, colour, line
  width and Axes, and the limits of the Axes and the face colour are unchanged. Nothing is
  assumed of the lengths of the new data, so this is what the call leaves behind also
  when they differ from the first frame's. Whether the call then returns is the matter of
  \<^verbatim>\<open>canvas.draw()\<close>, which runs when the lines hold the new data: the call returns
  exactly when every line can build its points from the x array it kept, and else raises
  the error of the draw. It returns when the data of every channel has as many samples as
  the line has x values, or one sample; it raises when the data of some channel has
  neither, and the x values of its line are not just one.
\<close>

theorem later_render_frame:
  assumes "reachable B self" and "lines self = Some ls" and "int (length datas) = nplots self"
  shows "\<exists>self' fg fg'.
           render_frame B self datas =
             (if \<forall>i<length datas.
                    broadcast_shape (length (cached_x fg ! (ls ! i))) (length (datas ! i)) \<noteq> None
              then Inr self' else Inl (Shape_mismatch, self'))
         \<and> ((\<forall>i<length datas. length (datas ! i) = length (xdata (fig_lines fg ! (ls ! i)))
                                \<or> length (datas ! i) = 1)
              \<longrightarrow> render_frame B self datas = Inr self')
         \<and> ((\<exists>i<length datas. length (xdata (fig_lines fg ! (ls ! i))) \<noteq> 1
                                \<and> length (datas ! i) \<noteq> 1
                                \<and> length (datas ! i) \<noteq> length (xdata (fig_lines fg ! (ls ! i))))
              \<longrightarrow> render_frame B self datas = Inl (Shape_mismatch, self'))
         \<and> fig self = Some fg \<and> fig self' = Some fg'
         \<and> lines self' = Some ls \<and> axes self' = axes self
         \<and> line_colors self' = line_colors self \<and> renderer_cfg self' = renderer_cfg self
         \<and> length ls = length datas \<and> distinct ls
         \<and> length (fig_lines fg') = length (fig_lines fg)
         \<and> fig_axes fg' = fig_axes fg \<and> facecolor fg' = facecolor fg
         \<and> (\<forall>i<length datas.
               ls ! i < length (fig_lines fg)
             \<and> fig_lines fg' ! (ls ! i) = (fig_lines fg ! (ls ! i))\<lparr>ydata := datas ! i\<rparr>)
         \<and> (\<forall>j<length (fig_lines fg).
               xdata (fig_lines fg' ! j) = xdata (fig_lines fg ! j)
             \<and> color (fig_lines fg' ! j) = color (fig_lines fg ! j)
             \<and> linewidth (fig_lines fg' ! j) = linewidth (fig_lines fg ! j)
             \<and> line_axes (fig_lines fg' ! j) = line_axes (fig_lines fg ! j))"
proof -
  note inv = reachable_inv [OF assms(1)]
  from render_frame_later [OF inv assms(2,3), of B] obtain fg fg' where
    fg: "fig self = Some fg" and ls: "ls = [0..<length datas]"
    and n: "length (fig_lines fg) = length datas"
    and run: "render_frame B self datas =
          (if \<forall>k<length datas.
                 broadcast_shape (length (cached_x fg ! k)) (length (datas ! k)) \<noteq> None
           then Inr (self\<lparr>fig := Some fg', lines := Some ls\<rparr>)
           else Inl (Shape_mismatch, self\<lparr>fig := Some fg', lines := Some ls\<rparr>))"
    and same: "facecolor fg' = facecolor fg" "fig_axes fg' = fig_axes fg"
      "length (fig_lines fg') = length (fig_lines fg)"
    and upd: "\<forall>k<length datas. fig_lines fg' ! k = (fig_lines fg ! k)\<lparr>ydata := datas ! k\<rparr>"
    by blast
  let ?self' = "self\<lparr>fig := Some fg', lines := Some ls\<rparr>"
  let ?fits = "\<forall>k<length datas.
                 broadcast_shape (length (cached_x fg ! k)) (length (datas ! k)) \<noteq> None"
  from inv fg have "kept_x fg"
    by (auto simp: renderer_inv_def split: option.splits)
  then have kept: "length (cached_x fg ! k) = length (xdata (fig_lines fg ! k))"
    if "k < length datas" "length (xdata (fig_lines fg ! k)) \<noteq> 1" for k
    using that n by (simp add: kept_x_def list_all2_conv_all_nth)
  have c0: "render_frame B self datas =
             (if \<forall>i<length datas.
                    broadcast_shape (length (cached_x fg ! (ls ! i))) (length (datas ! i)) \<noteq> None
              then Inr ?self' else Inl (Shape_mismatch, ?self'))"
    using run by (simp add: ls)
  have returns: "render_frame B self datas = Inr ?self'"
    if same_length: "\<forall>i<length datas. length (datas ! i) = length (xdata (fig_lines fg ! (ls ! i)))
                                \<or> length (datas ! i) = 1"
  proof -
    have "broadcast_shape (length (cached_x fg ! k)) (length (datas ! k)) \<noteq> None"
      if k: "k < length datas" for k
    proof (cases "length (datas ! k) = 1")
      case True
      then show ?thesis by (simp add: broadcast_shape_def)
    next
      case False
      with same_length k have "length (datas ! k) = length (xdata (fig_lines fg ! k))"
        by (auto simp: ls)
      with False kept [OF k] show ?thesis
        by (simp add: broadcast_shape_def)
    qed
    then have ?fits by blast
    with run show ?thesis by simp
  qed
  have raises: "render_frame B self datas = Inl (Shape_mismatch, ?self')"
    if other_length: "\<exists>i<length datas. length (xdata (fig_lines fg ! (ls ! i))) \<noteq> 1
                                \<and> length (datas ! i) \<noteq> 1
                                \<and> length (datas ! i) \<noteq> length (xdata (fig_lines fg ! (ls ! i)))"
  proof -
    from other_length obtain k where k: "k < length datas"
      and neq: "length (xdata (fig_lines fg ! k)) \<noteq> 1" "length (datas ! k) \<noteq> 1"
        "length (datas ! k) \<noteq> length (xdata (fig_lines fg ! k))"
      by (auto simp: ls)
    from kept [OF k neq(1)] neq
    have "broadcast_shape (length (cached_x fg ! k)) (length (datas ! k)) = None"
      by (simp add: broadcast_shape_def)
    with k have "\<not> ?fits" by blast
    with run show ?thesis by simp
  qed
  have c1: "fig ?self' = Some fg'" "lines ?self' = Some ls" "axes ?self' = axes self"
    "line_colors ?self' = line_colors self" "renderer_cfg ?self' = renderer_cfg self"
    by simp_all
  have c2: "length ls = length datas" "distinct ls"
    by (simp_all add: ls)
  have c3: "length (fig_lines fg') = length (fig_lines fg)" "fig_axes fg' = fig_axes fg"
    "facecolor fg' = facecolor fg"
    using same by simp_all
  have c4: "\<forall>i<length datas.
               ls ! i < length (fig_lines fg)
             \<and> fig_lines fg' ! (ls ! i) = (fig_lines fg ! (ls ! i))\<lparr>ydata := datas ! i\<rparr>"
    using upd n by (simp add: ls)
  have c5: "\<forall>j<length (fig_lines fg).
               xdata (fig_lines fg' ! j) = xdata (fig_lines fg ! j)
             \<and> color (fig_lines fg' ! j) = color (fig_lines fg ! j)
             \<and> linewidth (fig_lines fg' ! j) = linewidth (fig_lines fg ! j)
             \<and> line_axes (fig_lines fg' ! j) = line_axes (fig_lines fg ! j)"
    using upd n by simp
  have c6: "(\<forall>i<length datas. length (datas ! i) = length (xdata (fig_lines fg ! (ls ! i)))
                                \<or> length (datas ! i) = 1)
              \<longrightarrow> render_frame B self datas = Inr ?self'"
    using returns by blast
  have c7: "(\<exists>i<length datas. length (xdata (fig_lines fg ! (ls ! i))) \<noteq> 1
                                \<and> length (datas ! i) \<noteq> 1
                                \<and> length (datas ! i) \<noteq> length (xdata (fig_lines fg ! (ls ! i))))
              \<longrightarrow> render_frame B self datas = Inl (Shape_mismatch, ?self')"
    using raises by blast
  from c0 c6 c7 fg c1 c2 c3 c4 c5 show ?thesis
    by (intro exI [of _ ?self'] exI [of _ fg] exI [of _ fg'] conjI)
qed

theorem later_render_frame_witness:
  "render_frame demo_backend demo1 [[5], [6, 7], []] = Inl (Shape_mismatch, demo2)
   \<and> map xdata (fig_lines (the (fig demo2))) = map xdata (fig_lines (the (fig demo1)))
   \<and> map ydata (fig_lines (the (fig demo2))) = [[5], [6, 7], []]
   \<and> render_frame demo_backend demo1 [[9, 9, 9], [8, 8, 8], [7, 7, 7]] = Inr demo3
   \<and> (\<exists>self'. render_frame demo_backend demo1 [[9, 9, 9], [8, 8, 8], [7, 7, 7]] = Inr self'
          \<and> lines self' = Some [0, 1, 2])
   \<and> (\<exists>self' fg fg'.
           render_frame demo_backend demo1 [[5], [6, 7], []] =
             (if \<forall>i<length [[5], [6, 7], [] :: int list].
                    broadcast_shape (length (cached_x fg ! ([0, 1, 2] ! i)))
                      (length ([[5], [6, 7], [] :: int list] ! i)) \<noteq> None
              then Inr self' else Inl (Shape_mismatch, self'))
         \<and> fig demo1 = Some fg \<and> fig self' = Some fg'
         \<and> lines self' = Some [0, 1, 2] \<and> axes self' = axes demo1
         \<and> line_colors self' = line_colors demo1 \<and> renderer_cfg self' = renderer_cfg demo1
         \<and> length [0, 1, 2 :: nat] = length [[5], [6, 7], [] :: int list] \<and> distinct [0, 1, 2 :: nat]
         \<and> length (fig_lines fg') = length (fig_lines fg)
         \<and> fig_axes fg' = fig_axes fg \<and> facecolor fg' = facecolor fg
         \<and> (\<forall>i<length [[5], [6, 7], [] :: int list].
               [0, 1, 2] ! i < length (fig_lines fg)
             \<and> fig_lines fg' ! ([0, 1, 2] ! i) =
                 (fig_lines fg ! ([0, 1, 2] ! i))\<lparr>ydata := [[5], [6, 7], []] ! i\<rparr>)
         \<and> (\<forall>j<length (fig_lines fg).
               xdata (fig_lines fg' ! j) = xdata (fig_lines fg ! j)
             \<and> color (fig_lines fg' ! j) = color (fig_lines fg ! j)
             \<and> linewidth (fig_lines fg' ! j) = linewidth (fig_lines fg ! j)
             \<and> line_axes (fig_lines fg' ! j) = line_axes (fig_lines fg ! j)))"
  (is "_ \<and> _ \<and> _ \<and> _ \<and> _ \<and> ?frame")
proof -
  have later: "lines demo1 = Some [0, 1, 2]"
    by (simp add: demo1_def)
  have arity: "int (length [[5], [6, 7], [] :: int list]) = nplots demo1"
    by (simp add: demo1_def demo0_def)
  have x: "map xdata (fig_lines (the (fig demo2))) = map xdata (fig_lines (the (fig demo1)))"
    by (simp add: demo2_def demo1_def)
  have y: "map ydata (fig_lines (the (fig demo2))) = [[5], [6, 7], []]"
    by (simp add: demo2_def)
  from later_render_frame [OF demo1_reachable later arity] obtain self' fg fg' where
    "render_frame demo_backend demo1 [[5], [6, 7], []] =
             (if \<forall>i<length [[5], [6, 7], [] :: int list].
                    broadcast_shape (length (cached_x fg ! ([0, 1, 2] ! i)))
                      (length ([[5], [6, 7], [] :: int list] ! i)) \<noteq> None
              then Inr self' else Inl (Shape_mismatch, self'))"
    "fig demo1 = Some fg" "fig self' = Some fg'"
    "lines self' = Some [0, 1, 2]" "axes self' = axes demo1"
    "line_colors self' = line_colors demo1" "renderer_cfg self' = renderer_cfg demo1"
    "length [0, 1, 2 :: nat] = length [[5], [6, 7], [] :: int list]" "distinct [0, 1, 2 :: nat]"
    "length (fig_lines fg') = length (fig_lines fg)"
    "fig_axes fg' = fig_axes fg" "facecolor fg' = facecolor fg"
    "\<forall>i<length [[5], [6, 7], [] :: int list].
               [0, 1, 2] ! i < length (fig_lines fg)
             \<and> fig_lines fg' ! ([0, 1, 2] ! i) =
                 (fig_lines fg ! ([0, 1, 2] ! i))\<lparr>ydata := [[5], [6, 7], []] ! i\<rparr>"
    "\<forall>j<length (fig_lines fg).
               xdata (fig_lines fg' ! j) = xdata (fig_lines fg ! j)
             \<and> color (fig_lines fg' ! j) = color (fig_lines fg ! j)
             \<and> linewidth (fig_lines fg' ! j) = linewidth (fig_lines fg ! j)
             \<and> line_axes (fig_lines fg' ! j) = line_axes (fig_lines fg ! j)"
    by blast
  then have frame: ?frame
    by (intro exI [of _ self'] exI [of _ fg] exI [of _ fg'] conjI)
  have same_shapes: "\<exists>self'.
      render_frame demo_backend demo1 [[9, 9, 9], [8, 8, 8], [7, 7, 7]] = Inr self'
      \<and> lines self' = Some [0, 1, 2]"
  proof -
    have arity3: "int (length [[9, 9, 9], [8, 8, 8], [7, 7, 7 :: int]]) = nplots demo1"
      by (simp add: demo1_def demo0_def)
    from later_render_frame [OF demo1_reachable later arity3] obtain s3 g3 where
      g3: "fig demo1 = Some g3" and l3: "lines s3 = Some [0, 1, 2]"
      and ret: "(\<forall>i<length [[9, 9, 9], [8, 8, 8], [7, 7, 7 :: int]].
                   length ([[9, 9, 9], [8, 8, 8], [7, 7, 7 :: int]] ! i)
                     = length (xdata (fig_lines g3 ! ([0, 1, 2] ! i)))
                   \<or> length ([[9, 9, 9], [8, 8, 8], [7, 7, 7 :: int]] ! i) = 1)
                \<longrightarrow> render_frame demo_backend demo1 [[9, 9, 9], [8, 8, 8], [7, 7, 7]] = Inr s3"
      by blast
    from g3 have "map xdata (fig_lines g3) = [[0, 1, 2], [0, 1, 2], [0, 1, 2]]"
      by (auto simp: demo1_def)
    then have "\<forall>i<length [[9, 9, 9], [8, 8, 8], [7, 7, 7 :: int]].
                   length ([[9, 9, 9], [8, 8, 8], [7, 7, 7 :: int]] ! i)
                     = length (xdata (fig_lines g3 ! ([0, 1, 2] ! i)))"
      by (auto simp: less_Suc_eq list_eq_iff_nth_eq)
    with ret l3 show ?thesis
      by blast
  qed
  from demo2_raised x y demo3_rendered same_shapes frame show ?thesis
    by (intro conjI)
qed

text \<open>
  Claim C7, as amended. \<^verbatim>\<open>set_colors\<close> fails with an ArityMismatch unless it is given
  one configuration for each channel; given that many, it fails with a
  LifecycleViolation once a frame has been drawn, and after a successful
  \<^verbatim>\<open>render_frame\<close> it always fails; before the first frame it succeeds and changes
  \<^verbatim>\<open>_line_colors\<close> only, so nothing of the backend. It may be called again before the
  first frame: each successful call replaces the overrides of the one before, so "at most
  once" is not what the code enforces. The counterexample sets the colours twice.
\<close>

theorem set_colors_contract:
  "(int (length channel_cfgs) \<noteq> nplots self \<longrightarrow>
      (\<exists>e. set_colors self channel_cfgs = Inl e \<and> taxonomy e = ArityMismatch))
   \<and> (int (length channel_cfgs) = nplots self \<and> lines self \<noteq> None \<longrightarrow>
      (\<exists>e. set_colors self channel_cfgs = Inl e \<and> taxonomy e = LifecycleViolation))
   \<and> (int (length channel_cfgs) = nplots self \<and> lines self = None \<longrightarrow>
      set_colors self channel_cfgs = Inr (self\<lparr>line_colors := map line_color channel_cfgs\<rparr>))
   \<and> (\<forall>datas self'. render_frame B self datas = Inr self' \<longrightarrow>
         isl (set_colors self' channel_cfgs)
       \<and> (int (length channel_cfgs) = nplots self' \<longrightarrow>
            set_colors self' channel_cfgs = Inl Colors_after_render_frame))
   \<and> (\<forall>self1 again. set_colors self channel_cfgs = Inr self1 \<and> int (length again) = nplots self \<longrightarrow>
         set_colors self1 again = Inr (self\<lparr>line_colors := map line_color again\<rparr>))"
proof (intro conjI allI impI)
  fix datas self'
  assume run: "render_frame B self datas = Inr self'"
  then have "lines self' \<noteq> None"
    using render_frame_Inr by fastforce
  then show "isl (set_colors self' channel_cfgs)"
    and "int (length channel_cfgs) = nplots self' \<Longrightarrow>
      set_colors self' channel_cfgs = Inl Colors_after_render_frame"
    by (simp_all add: set_colors_def)
qed (auto simp: set_colors_def split: if_splits)

theorem set_colors_contract_witness:
  "(\<exists>e. set_colors demo0 [\<lparr>line_color = Some ''red''\<rparr>] = Inl e \<and> taxonomy e = ArityMismatch)
   \<and> (\<exists>e. set_colors demo1 [\<lparr>line_color = Some ''red''\<rparr>, \<lparr>line_color = None\<rparr>, \<lparr>line_color = None\<rparr>]
            = Inl e \<and> taxonomy e = LifecycleViolation)
   \<and> set_colors demo0 [\<lparr>line_color = Some ''red''\<rparr>, \<lparr>line_color = None\<rparr>, \<lparr>line_color = None\<rparr>]
       = Inr (demo0\<lparr>line_colors := [Some ''red'', None, None]\<rparr>)
   \<and> fig (demo0\<lparr>line_colors := [Some ''red'', None, None]\<rparr>) = fig demo0"
proof -
  have a: "int (length [\<lparr>line_color = Some ''red''\<rparr>]) \<noteq> nplots demo0"
    and b: "int (length [\<lparr>line_color = Some ''red''\<rparr>, \<lparr>line_color = None\<rparr>, \<lparr>line_color = None\<rparr>])
              = nplots demo1 \<and> lines demo1 \<noteq> None"
    and c: "int (length [\<lparr>line_color = Some ''red''\<rparr>, \<lparr>line_color = None\<rparr>, \<lparr>line_color = None\<rparr>])
              = nplots demo0 \<and> lines demo0 = None"
    by (simp_all add: demo0_def demo1_def)
  note wrong_arity = set_colors_contract [where self = demo0, THEN conjunct1, rule_format, OF a]
  note too_late = set_colors_contract [where self = demo1, THEN conjunct2, THEN conjunct1,
      rule_format, OF b]
  note stored = set_colors_contract [where self = demo0, THEN conjunct2, THEN conjunct2,
      THEN conjunct1, rule_format, OF c]
  have "fig (demo0\<lparr>line_colors := [Some ''red'', None, None]\<rparr>) = fig demo0"
    by simp
  with wrong_arity too_late stored show ?thesis
    by simp
qed

theorem set_colors_twice_counterexample:
  "MatplotlibRenderer_init demo_backend demo_cfg demo_lcfg 3 = Inr demo0
   \<and> set_colors demo0 [\<lparr>line_color = Some ''red''\<rparr>, \<lparr>line_color = None\<rparr>, \<lparr>line_color = None\<rparr>]
       = Inr (demo0\<lparr>line_colors := [Some ''red'', None, None]\<rparr>)
   \<and> set_colors (demo0\<lparr>line_colors := [Some ''red'', None, None]\<rparr>)
         [\<lparr>line_color = None\<rparr>, \<lparr>line_color = Some ''green''\<rparr>, \<lparr>line_color = None\<rparr>]
       = Inr (demo0\<lparr>line_colors := [None, Some ''green'', None]\<rparr>)"
  using demo0_constructed by (simp add: set_colors_def demo0_def)

text \<open>
  Claim C8. \<^verbatim>\<open>get_frame\<close> has no check of its own that a frame was drawn, but in a
  renderer that has drawn none (\<^verbatim>\<open>_lines\<close> is \<^verbatim>\<open>None\<close>) the canvas has no renderer
  yet, so \<^verbatim>\<open>tostring_rgb()\<close> raises AttributeError and \<^verbatim>\<open>get_frame\<close> fails, with
  that error when the canvas passes the two checks before. Every \<^verbatim>\<open>render_frame\<close>
  with one data sequence for each channel sets \<^verbatim>\<open>_lines\<close>, whether its draw returns
  or raises, and from then on the canvas holds a buffer: \<^verbatim>\<open>get_frame\<close> fails if the
  canvas is not an Agg canvas, if its size is not the configured one or if the buffer
  has not \<open>width * height * 3\<close> bytes, each time with a BackendContractViolation, and
  these are all its errors; otherwise it returns the buffer. So a buffer that
  \<^verbatim>\<open>get_frame\<close> returns has \<open>width * height * 3\<close> bytes and comes after a frame.
\<close>

theorem get_frame_contract:
  assumes "reachable B self"
  shows "(lines self = None \<longrightarrow>
            (\<exists>e. get_frame self = Inl e)
          \<and> (\<exists>fg. fig self = Some fg
                \<and> tostring_rgb (canvas fg) = Inl AttributeError
                \<and> (canvas_class (canvas fg) = FigureCanvasAgg
                     \<and> get_width_height (canvas fg)
                          = (width (renderer_cfg self), height (renderer_cfg self))
                   \<longrightarrow> get_frame self = Inl AttributeError)))
     \<and> (lines self \<noteq> None \<longrightarrow>
            (\<exists>fg buf. fig self = Some fg
               \<and> tostring_rgb (canvas fg) = Inr buf
               \<and> get_frame self =
                   (if canvas_class (canvas fg) \<noteq> FigureCanvasAgg then Inl Not_FigureCanvasAgg
                    else if get_width_height (canvas fg)
                              \<noteq> (width (renderer_cfg self), height (renderer_cfg self))
                      then Inl AssertionError
                    else if int (length buf) \<noteq> width (renderer_cfg self) * height (renderer_cfg self) * 3
                      then Inl AssertionError
                    else Inr buf)))
     \<and> (\<forall>e. lines self \<noteq> None \<and> get_frame self = Inl e \<longrightarrow> taxonomy e = BackendContractViolation)
     \<and> (\<forall>buf. get_frame self = Inr buf \<longrightarrow>
            lines self \<noteq> None
          \<and> int (length buf) = width (renderer_cfg self) * height (renderer_cfg self) * 3)
     \<and> (\<forall>datas. int (length datas) = nplots self \<longrightarrow>
            lines (state_after (render_frame B self datas)) \<noteq> None)"
proof -
  let ?w = "width (renderer_cfg self)" and ?h = "height (renderer_cfg self)"
  note inv = reachable_inv [OF assms]
  then obtain fg where fg: "fig self = Some fg"
    and before: "lines self = None \<Longrightarrow> canvas_renderer (canvas fg) = None"
    and after: "lines self \<noteq> None \<Longrightarrow> canvas_renderer (canvas fg) \<noteq> None"
    by (auto simp: renderer_inv_def split: option.splits)
  have c1: "lines self = None \<longrightarrow>
            (\<exists>e. get_frame self = Inl e)
          \<and> (\<exists>fg. fig self = Some fg
                \<and> tostring_rgb (canvas fg) = Inl AttributeError
                \<and> (canvas_class (canvas fg) = FigureCanvasAgg
                     \<and> get_width_height (canvas fg) = (?w, ?h)
                   \<longrightarrow> get_frame self = Inl AttributeError))"
  proof
    assume "lines self = None"
    from before [OF this] have none: "tostring_rgb (canvas fg) = Inl AttributeError"
      by (simp add: tostring_rgb_def)
    then have fails: "\<exists>e. get_frame self = Inl e"
      and which: "canvas_class (canvas fg) = FigureCanvasAgg
               \<and> get_width_height (canvas fg) = (?w, ?h)
             \<longrightarrow> get_frame self = Inl AttributeError"
      using fg by (auto simp: get_frame_def Let_def)
    from fg none which have "\<exists>fg. fig self = Some fg
                \<and> tostring_rgb (canvas fg) = Inl AttributeError
                \<and> (canvas_class (canvas fg) = FigureCanvasAgg
                     \<and> get_width_height (canvas fg) = (?w, ?h)
                   \<longrightarrow> get_frame self = Inl AttributeError)"
      by (intro exI [of _ fg] conjI)
    with fails show "(\<exists>e. get_frame self = Inl e)
          \<and> (\<exists>fg. fig self = Some fg
                \<and> tostring_rgb (canvas fg) = Inl AttributeError
                \<and> (canvas_class (canvas fg) = FigureCanvasAgg
                     \<and> get_width_height (canvas fg) = (?w, ?h)
                   \<longrightarrow> get_frame self = Inl AttributeError))"
      by (intro conjI)
  qed
  have run: "get_frame self =
                   (if canvas_class (canvas fg) \<noteq> FigureCanvasAgg then Inl Not_FigureCanvasAgg
                    else if get_width_height (canvas fg) \<noteq> (?w, ?h)
                      then Inl AssertionError
                    else if int (length buf) \<noteq> ?w * ?h * 3
                      then Inl AssertionError
                    else Inr buf)"
    if "tostring_rgb (canvas fg) = Inr buf" for buf
    using fg that by (simp add: get_frame_def Let_def RGB_DEPTH_def)
  have c2: "lines self \<noteq> None \<longrightarrow>
            (\<exists>fg buf. fig self = Some fg
               \<and> tostring_rgb (canvas fg) = Inr buf
               \<and> get_frame self =
                   (if canvas_class (canvas fg) \<noteq> FigureCanvasAgg then Inl Not_FigureCanvasAgg
                    else if get_width_height (canvas fg) \<noteq> (?w, ?h)
                      then Inl AssertionError
                    else if int (length buf) \<noteq> ?w * ?h * 3
                      then Inl AssertionError
                    else Inr buf))"
  proof
    assume "lines self \<noteq> None"
    from after [OF this] obtain buf where buf: "tostring_rgb (canvas fg) = Inr buf"
      by (auto simp: tostring_rgb_def)
    from fg buf run [OF buf] show "\<exists>fg buf. fig self = Some fg
               \<and> tostring_rgb (canvas fg) = Inr buf
               \<and> get_frame self =
                   (if canvas_class (canvas fg) \<noteq> FigureCanvasAgg then Inl Not_FigureCanvasAgg
                    else if get_width_height (canvas fg) \<noteq> (?w, ?h)
                      then Inl AssertionError
                    else if int (length buf) \<noteq> ?w * ?h * 3
                      then Inl AssertionError
                    else Inr buf)"
      by (intro exI [of _ fg] exI [of _ buf] conjI)
  qed
  have c3: "\<forall>e. lines self \<noteq> None \<and> get_frame self = Inl e \<longrightarrow> taxonomy e = BackendContractViolation"
  proof (intro allI impI)
    fix e
    assume e: "lines self \<noteq> None \<and> get_frame self = Inl e"
    with after obtain buf where buf: "tostring_rgb (canvas fg) = Inr buf"
      by (auto simp: tostring_rgb_def)
    from run [OF buf] e show "taxonomy e = BackendContractViolation"
      by (auto split: if_splits)
  qed
  have c4: "\<forall>buf. get_frame self = Inr buf \<longrightarrow>
            lines self \<noteq> None \<and> int (length buf) = ?w * ?h * 3"
  proof (intro allI impI)
    fix buf
    assume ok: "get_frame self = Inr buf"
    with c1 have later: "lines self \<noteq> None"
      by auto
    with after obtain buf' where buf': "tostring_rgb (canvas fg) = Inr buf'"
      by (auto simp: tostring_rgb_def)
    from run [OF buf'] ok have "int (length buf) = ?w * ?h * 3"
      by (auto split: if_splits)
    with later show "lines self \<noteq> None \<and> int (length buf) = ?w * ?h * 3"
      by simp
  qed
  have c5: "\<forall>datas. int (length datas) = nplots self \<longrightarrow>
            lines (state_after (render_frame B self datas)) \<noteq> None"
    using render_frame_sets_lines [OF assms] by blast
  from c1 c2 c3 c4 c5 show ?thesis
    by (intro conjI)
qed

theorem get_frame_contract_witness:
  "lines demo0 = None \<and> get_frame demo0 = Inl AttributeError
   \<and> lines demo1 \<noteq> None \<and> get_frame demo1 = Inr (replicate 6 255)
   \<and> int (length (replicate 6 (255 :: 8 word))) = width (renderer_cfg demo1) * height (renderer_cfg demo1) * 3
   \<and> lines demo2 \<noteq> None \<and> get_frame demo2 = Inr (replicate 6 255)
   \<and> lines short1 \<noteq> None
   \<and> (\<exists>e. get_frame short1 = Inl e \<and> taxonomy e = BackendContractViolation)
   \<and> lines (state_after (render_frame demo_backend demo0 demo_datas)) \<noteq> None"
proof -
  have l0: "lines demo0 = None" and l1: "lines demo1 \<noteq> None" and l2: "lines demo2 \<noteq> None"
    and ls: "lines short1 \<noteq> None"
    by (simp_all add: demo0_def demo1_def demo2_def short1_def)
  note too_early = get_frame_contract [OF demo0_reachable, THEN conjunct1, rule_format, OF l0,
      THEN conjunct2]
  note drawn = get_frame_contract [OF demo1_reachable, THEN conjunct2, THEN conjunct1,
      rule_format, OF l1]
  note returned = get_frame_contract [OF demo1_reachable, THEN conjunct2, THEN conjunct2,
      THEN conjunct2, THEN conjunct1, rule_format]
  note draw_raised = get_frame_contract [OF demo2_reachable, THEN conjunct2, THEN conjunct1,
      rule_format, OF l2]
  note errors = get_frame_contract [OF short1_reachable, THEN conjunct2, THEN conjunct2,
      THEN conjunct1, rule_format]
  note rendered = get_frame_contract [OF demo0_reachable, THEN conjunct2, THEN conjunct2,
      THEN conjunct2, THEN conjunct2, rule_format]
  have before: "get_frame demo0 = Inl AttributeError"
    using too_early by (auto simp: demo0_def demo_cfg_def)
  have after: "get_frame demo1 = Inr (replicate 6 255)"
    using drawn by (auto simp: demo1_def demo0_def demo_cfg_def tostring_rgb_def)
  have len: "int (length (replicate 6 (255 :: 8 word)))
      = width (renderer_cfg demo1) * height (renderer_cfg demo1) * 3"
    using returned [OF after] by (rule conjunct2)
  have raised: "get_frame demo2 = Inr (replicate 6 255)"
    using draw_raised by (auto simp: demo2_def demo1_def demo0_def demo_cfg_def tostring_rgb_def)
  have "get_frame short1 = Inl AssertionError"
    by (simp add: get_frame_def short1_def demo0_def demo_cfg_def tostring_rgb_def RGB_DEPTH_def)
  with errors [of AssertionError] ls
  have broken: "\<exists>e. get_frame short1 = Inl e \<and> taxonomy e = BackendContractViolation"
    by simp
  have "int (length demo_datas) = nplots demo0"
    by (simp add: demo0_def demo_datas_def)
  then have sets: "lines (state_after (render_frame demo_backend demo0 demo_datas)) \<noteq> None"
    by (rule rendered)
  from l0 before l1 after len l2 raised ls broken sets show ?thesis
    by (intro conjI)
qed

end
